theory Spec2Isabelle
  imports Main
begin

section \<open>Data model of package revoke\<close>

text \<open>
  Byte slices and Go strings are byte sequences, so both are \<open>string\<close> (a list of
  8-bit characters). Instants (\<open>time.Time\<close>) are integers; \<open>Before\<close> and \<open>After\<close>
  are the strict orders on them. Serial numbers (\<open>*big.Int\<close>) are unbounded integers
  and \<open>Cmp(...) == 0\<close> is equality.
\<close>

text \<open>
  Error values. \<open>ErrFailedGetCRL\<close> is the package's sentinel error (declared outside
  the files at hand, so it is kept as a value of its own); \<open>ErrorNew\<close> is
  \<open>errors.New\<close>; \<open>Errorf\<close> is \<open>fmt.Errorf\<close> with one instant as argument.
  The external capabilities return errors of the same type.
\<close>

datatype error = ErrFailedGetCRL | ErrorNew string | Errorf string int

record Certificate =
  SerialNumber :: int
  NotBefore :: int
  NotAfter :: int
  CRLDistributionPoints :: "string list"
  OCSPServer :: "string list"
  IssuingCertificateURL :: "string list"

text \<open>
  \<open>x509.RevocationList\<close>: the next-update instant and the serial numbers of the two
  entry slices the code reads (\<open>RevokedCertificates\<close> in the package-level checker,
  \<open>RevokedCertificateEntries\<close> in the Verifier).
\<close>

record RevocationList =
  NextUpdate :: int
  RevokedCertificates :: "int list"
  RevokedCertificateEntries :: "int list"

text \<open>\<open>pkix.CertificateList\<close> of the build before go1.19: the two fields of \<open>TBSCertList\<close> in use.\<close>

record CertificateList =
  TBSCertList_NextUpdate :: int
  TBSCertList_RevokedCertificates :: "int list"

datatype ResponseStatus = ocsp_Good | ocsp_Revoked | ocsp_Unknown

record ocsp_Response =
  Status :: ResponseStatus

record http_Response =
  StatusCode :: int
  Body :: string

text \<open>
  What a run does to the outside, in order: the mutex operations on the cache lock and
  the HTTP requests sent.
\<close>

datatype event =
  MutexLock
| MutexUnlock
| HttpGet string
| HttpPost string string string

fun is_request :: "event \<Rightarrow> bool" where
  "is_request (HttpGet _) = True"
| "is_request (HttpPost _ _ _) = True"
| "is_request _ = False"

definition requests :: "event list \<Rightarrow> event list" where
  "requests tr = filter is_request tr"

text \<open>
  An HTTP client: what \<open>Get\<close> and \<open>Post\<close> answer, given the requests sent before
  (so that the same URL may answer differently on a later call).
\<close>

record http_Client =
  Get :: "event list \<Rightarrow> string \<Rightarrow> error + http_Response"
  Post :: "event list \<Rightarrow> string \<Rightarrow> string \<Rightarrow> string \<Rightarrow> error + http_Response"

type_synonym Reader = "string \<Rightarrow> error + string"

text \<open>
  The capabilities outside the package: the clock (the n-th reading of \<open>time.Now\<close>),
  the scheme \<open>url.Parse\<close> finds, PEM decoding (whether a block is found), the parsers,
  the signature checks, the OCSP request builder and response parser, the two encoders,
  and the five error responses of package ocsp.
\<close>

record env =
  clock :: "nat \<Rightarrow> int"
  url_Parse_Scheme :: "string \<Rightarrow> error + string"
  pem_Decode :: "string \<Rightarrow> bool"
  ParseCertificatePEM :: "string \<Rightarrow> error + Certificate"
  x509_ParseCertificate :: "string \<Rightarrow> error + Certificate"
  x509_ParseRevocationList :: "string \<Rightarrow> error + RevocationList"
  x509_ParseCRL :: "string \<Rightarrow> error + CertificateList"
  CheckSignatureFrom :: "RevocationList \<Rightarrow> Certificate \<Rightarrow> error option"
  CheckCRLSignature :: "Certificate \<Rightarrow> CertificateList \<Rightarrow> error option"
  ocsp_CreateRequest :: "Certificate \<Rightarrow> Certificate \<Rightarrow> error + string"
  ocsp_ParseResponseForCert :: "string \<Rightarrow> Certificate \<Rightarrow> Certificate \<Rightarrow> error + ocsp_Response"
  base64_EncodeToString :: "string \<Rightarrow> string"
  url_QueryEscape :: "string \<Rightarrow> string"
  UnauthorizedErrorResponse :: string
  MalformedRequestErrorResponse :: string
  InternalErrorErrorResponse :: string
  TryLaterErrorResponse :: string
  SigRequredErrorResponse :: string

text \<open>
  The mutable state: the CRL cache (\<open>CRLSet\<close> of the package, \<open>crls\<close> of a Verifier;
  a key may be present with a nil list, \<open>Some None\<close>), the events so far, and the
  number of clock readings so far.
\<close>

record 'l state =
  crls :: "string \<Rightarrow> 'l option option"
  trace :: "event list"
  ticks :: nat

text \<open>The immutable part of a Verifier (its cache and lock live in the state).\<close>

record Verifier =
  client :: http_Client
  strict :: bool
  reader :: Reader
  readerCRL :: "Reader option"
  readerOCSP :: "Reader option"

text \<open>The package-level variables apart from the cache and its lock.\<close>

record globals =
  HTTPClient :: http_Client
  HardFail :: bool
  crlRead :: Reader
  remoteRead :: Reader
  ocspRead :: Reader

type_synonym verdict = "bool \<times> bool \<times> error option"

section \<open>Shared helpers\<close>

definition emit :: "event \<Rightarrow> 'l state \<Rightarrow> 'l state" where
  "emit e s = s\<lparr>trace := trace s @ [e]\<rparr>"

definition time_Now :: "env \<Rightarrow> 'l state \<Rightarrow> int \<times> 'l state" where
  "time_Now w s = (clock w (ticks s), s\<lparr>ticks := Suc (ticks s)\<rparr>)"

definition ldapURL :: "env \<Rightarrow> string \<Rightarrow> bool" where
  "ldapURL w uri =
     (case url_Parse_Scheme w uri of
        Inl e \<Rightarrow> False
      | Inr scheme \<Rightarrow> if scheme = ''ldap'' then True else False)"

text \<open>The switch over the known error responses, shared by both OCSP senders.\<close>

definition ocsp_error_switch :: "env \<Rightarrow> string \<Rightarrow> error option" where
  "ocsp_error_switch w body =
     (if body = UnauthorizedErrorResponse w then Some (ErrorNew ''OSCP unauthorized'')
      else if body = MalformedRequestErrorResponse w then Some (ErrorNew ''OSCP malformed'')
      else if body = InternalErrorErrorResponse w then Some (ErrorNew ''OSCP internal error'')
      else if body = TryLaterErrorResponse w then Some (ErrorNew ''OSCP try later'')
      else if body = SigRequredErrorResponse w then Some (ErrorNew ''OSCP signature required'')
      else None)"

text \<open>Scanning the revoked entries for the certificate's serial number.\<close>

fun serial_listed :: "int \<Rightarrow> int list \<Rightarrow> bool" where
  "serial_listed n [] = False"
| "serial_listed n (r # rs) = (if n = r then True else serial_listed n rs)"

section \<open>The Verifier\<close>

definition readfunc :: "Verifier \<Rightarrow> Reader option \<Rightarrow> Reader" where
  "readfunc v r = (case r of Some f \<Rightarrow> f | None \<Rightarrow> reader v)"

definition fetch ::
  "Verifier \<Rightarrow> string \<Rightarrow> Reader \<Rightarrow> 'l state \<Rightarrow> (error + http_Response \<times> string) \<times> 'l state" where
  "fetch v url read s =
     (case Get (client v) (requests (trace s)) url of
        Inl e \<Rightarrow> (Inl e, emit (HttpGet url) s)
      | Inr resp \<Rightarrow>
          (case read (Body resp) of
             Inl e \<Rightarrow> (Inl e, emit (HttpGet url) s)
           | Inr body \<Rightarrow> (Inr (resp, body), emit (HttpGet url) s)))"

definition fetchCert ::
  "env \<Rightarrow> Verifier \<Rightarrow> string \<Rightarrow> 'l state \<Rightarrow> (error + Certificate) \<times> 'l state" where
  "fetchCert w v url s =
     (case fetch v url (reader v) s of
        (Inl e, s') \<Rightarrow> (Inl e, s')
      | (Inr (resp, body), s') \<Rightarrow>
          (if pem_Decode w body then (ParseCertificatePEM w body, s')
           else (x509_ParseCertificate w body, s')))"

definition Verifier_fetchCRL ::
  "env \<Rightarrow> Verifier \<Rightarrow> string \<Rightarrow> 'l state \<Rightarrow> (error + RevocationList) \<times> 'l state" where
  "Verifier_fetchCRL w v url s =
     (case fetch v url (readfunc v (readerCRL v)) s of
        (Inl e, s') \<Rightarrow> (Inl e, s')
      | (Inr (resp, body), s') \<Rightarrow>
          (if StatusCode resp \<ge> 300 then (Inl ErrFailedGetCRL, s')
           else (x509_ParseRevocationList w body, s')))"

definition fetchOCSP ::
  "env \<Rightarrow> Verifier \<Rightarrow> string \<Rightarrow> string \<Rightarrow> Certificate \<Rightarrow> Certificate \<Rightarrow> 'l state
     \<Rightarrow> (error + ocsp_Response) \<times> 'l state" where
  "fetchOCSP w v server req leaf issuer s =
     (let (sent, s') =
            (if length req > 256
             then (Post (client v) (requests (trace s)) server ''application/ocsp-request'' req,
                   emit (HttpPost server ''application/ocsp-request'' req) s)
             else (let reqURL = server @ ''/'' @ url_QueryEscape w (base64_EncodeToString w req)
                   in (Get (client v) (requests (trace s)) reqURL, emit (HttpGet reqURL) s)))
      in case sent of
           Inl e \<Rightarrow> (Inl e, s')
         | Inr resp \<Rightarrow>
             (if StatusCode resp \<noteq> 200 then (Inl (ErrorNew ''failed to retrieve OSCP''), s')
              else case readfunc v (readerOCSP v) (Body resp) of
                     Inl e \<Rightarrow> (Inl e, s')
                   | Inr body \<Rightarrow>
                       (case ocsp_error_switch w body of
                          Some e \<Rightarrow> (Inl e, s')
                        | None \<Rightarrow> (ocsp_ParseResponseForCert w body leaf issuer, s'))))"

fun GetIssuer_loop ::
  "env \<Rightarrow> Verifier \<Rightarrow> string list \<Rightarrow> 'l state \<Rightarrow> Certificate option \<times> 'l state" where
  "GetIssuer_loop w v [] s = (None, s)"
| "GetIssuer_loop w v (uri # uris) s =
     (case fetchCert w v uri s of
        (Inl e, s') \<Rightarrow> GetIssuer_loop w v uris s'
      | (Inr issuer, s') \<Rightarrow> (Some issuer, s'))"

definition GetIssuer ::
  "env \<Rightarrow> Verifier \<Rightarrow> Certificate \<Rightarrow> 'l state \<Rightarrow> Certificate option \<times> 'l state" where
  "GetIssuer w v cert s = GetIssuer_loop w v (IssuingCertificateURL cert) s"

text \<open>
  The lock is taken first and released by the deferred call, that is on every
  return path, after everything else. \<open>shouldFetchCRL\<close> is cleared only when a list
  was found in the cache, so the last branch (nothing fetched, nothing cached) is never
  taken; the source would dereference a nil list there.
\<close>

definition CertificateRevokedCRL ::
  "env \<Rightarrow> Verifier \<Rightarrow> Certificate \<Rightarrow> string \<Rightarrow> RevocationList state
     \<Rightarrow> verdict \<times> RevocationList state" where
  "CertificateRevokedCRL w v cert uri s0 =
     (let s1 = emit MutexLock s0;
          (cached, s2) =
            (case crls s1 uri of
               None \<Rightarrow> (None, s1)
             | Some None \<Rightarrow> (None, s1\<lparr>crls := (crls s1)(uri := None)\<rparr>)
             | Some (Some crl) \<Rightarrow> (Some crl, s1));
          (shouldFetchCRL, s3) =
            (case cached of
               None \<Rightarrow> (True, s2)
             | Some crl \<Rightarrow>
                 (let (now, s') = time_Now w s2
                  in (if now < NextUpdate crl then False else True, s')));
          (issuer, s4) = GetIssuer w v cert s3
      in if shouldFetchCRL then
           (case Verifier_fetchCRL w v uri s4 of
              (Inl e, s5) \<Rightarrow> ((False, False, Some e), emit MutexUnlock s5)
            | (Inr crl, s5) \<Rightarrow>
                (case (case issuer of
                         None \<Rightarrow> None
                       | Some i \<Rightarrow> CheckSignatureFrom w crl i) of
                   Some e \<Rightarrow> ((False, False, Some e), emit MutexUnlock s5)
                 | None \<Rightarrow>
                     (let s6 = s5\<lparr>crls := (crls s5)(uri := Some (Some crl))\<rparr>
                      in ((serial_listed (SerialNumber cert) (RevokedCertificateEntries crl),
                           True, None), emit MutexUnlock s6))))
         else
           (case cached of
              Some crl \<Rightarrow>
                ((serial_listed (SerialNumber cert) (RevokedCertificateEntries crl), True, None),
                 emit MutexUnlock s4)
            | None \<Rightarrow> ((False, True, None), emit MutexUnlock s4)))"

fun CertificateRevokedOCSP_loop ::
  "env \<Rightarrow> Verifier \<Rightarrow> string list \<Rightarrow> string \<Rightarrow> Certificate \<Rightarrow> Certificate \<Rightarrow> error option
     \<Rightarrow> 'l state \<Rightarrow> verdict \<times> 'l state" where
  "CertificateRevokedOCSP_loop w v [] req cert issuer err s = ((False, False, err), s)"
| "CertificateRevokedOCSP_loop w v (server # servers) req cert issuer err s =
     (case fetchOCSP w v server req cert issuer s of
        (Inl e, s') \<Rightarrow>
          (if strict v then ((False, False, Some e), s')
           else CertificateRevokedOCSP_loop w v servers req cert issuer (Some e) s')
      | (Inr resp, s') \<Rightarrow>
          ((if Status resp \<noteq> ocsp_Good then True else False, True, None), s'))"

definition CertificateRevokedOCSP ::
  "env \<Rightarrow> Verifier \<Rightarrow> Certificate \<Rightarrow> 'l state \<Rightarrow> verdict \<times> 'l state" where
  "CertificateRevokedOCSP w v cert s =
     (if length (OCSPServer cert) = 0 then ((False, True, None), s)
      else case GetIssuer w v cert s of
             (None, s1) \<Rightarrow> ((False, False, None), s1)
           | (Some issuer, s1) \<Rightarrow>
               (case ocsp_CreateRequest w cert issuer of
                  Inl e \<Rightarrow> ((False, False, Some e), s1)
                | Inr req \<Rightarrow>
                    CertificateRevokedOCSP_loop w v (OCSPServer cert) req cert issuer None s1))"

fun CertificateRevoked_loop ::
  "env \<Rightarrow> Verifier \<Rightarrow> Certificate \<Rightarrow> string list \<Rightarrow> RevocationList state
     \<Rightarrow> verdict \<times> RevocationList state" where
  "CertificateRevoked_loop w v cert [] s =
     (case CertificateRevokedOCSP w v cert s of
        ((revoked, ok, err), s') \<Rightarrow>
          (if \<not> ok then (if strict v then ((True, False, err), s') else ((False, False, err), s'))
           else if revoked then ((True, True, err), s')
           else ((False, True, None), s')))"
| "CertificateRevoked_loop w v cert (uri # uris) s =
     (if ldapURL w uri then CertificateRevoked_loop w v cert uris s
      else case CertificateRevokedCRL w v cert uri s of
             ((revoked, ok, err), s') \<Rightarrow>
               (if \<not> ok then
                  (if strict v then ((True, False, err), s') else ((False, False, err), s'))
                else if revoked then ((True, True, err), s')
                else CertificateRevoked_loop w v cert uris s'))"

definition CertificateRevoked ::
  "env \<Rightarrow> Verifier \<Rightarrow> Certificate \<Rightarrow> RevocationList state \<Rightarrow> verdict \<times> RevocationList state" where
  "CertificateRevoked w v cert s = CertificateRevoked_loop w v cert (CRLDistributionPoints cert) s"

definition CertificateValid ::
  "env \<Rightarrow> Verifier \<Rightarrow> Certificate \<Rightarrow> RevocationList state \<Rightarrow> verdict \<times> RevocationList state" where
  "CertificateValid w v cert s =
     (let (now1, s1) = time_Now w s
      in if \<not> now1 < NotAfter cert
         then ((True, True, Some (Errorf (''Certificate expired %s'' @ [CHR 0x0A]) (NotAfter cert))), s1)
         else (let (now2, s2) = time_Now w s1
               in if \<not> now2 > NotBefore cert
                  then ((True, True,
                         Some (Errorf (''Certificate isn't valid until %s'' @ [CHR 0x0A])
                                 (NotBefore cert))), s2)
                  else CertificateRevoked w v cert s2))"

section \<open>The package-level functions\<close>

text \<open>
  \<open>fetchCRL\<close> of the current build: the status is looked at before the body is read.
\<close>

definition fetchCRL ::
  "env \<Rightarrow> globals \<Rightarrow> string \<Rightarrow> 'l state \<Rightarrow> (error + RevocationList) \<times> 'l state" where
  "fetchCRL w g url s =
     (case Get (HTTPClient g) (requests (trace s)) url of
        Inl e \<Rightarrow> (Inl e, emit (HttpGet url) s)
      | Inr resp \<Rightarrow>
          (if StatusCode resp \<ge> 300
           then (Inl (ErrorNew ''failed to retrieve CRL''), emit (HttpGet url) s)
           else case crlRead g (Body resp) of
                  Inl e \<Rightarrow> (Inl e, emit (HttpGet url) s)
                | Inr body \<Rightarrow> (x509_ParseRevocationList w body, emit (HttpGet url) s)))"

text \<open>\<open>fetchCRL\<close> of the build before go1.19 (revoke_legacy.go).\<close>

definition fetchCRL_legacy ::
  "env \<Rightarrow> globals \<Rightarrow> string \<Rightarrow> 'l state \<Rightarrow> (error + CertificateList) \<times> 'l state" where
  "fetchCRL_legacy w g url s =
     (case Get (HTTPClient g) (requests (trace s)) url of
        Inl e \<Rightarrow> (Inl e, emit (HttpGet url) s)
      | Inr resp \<Rightarrow>
          (if StatusCode resp \<ge> 300 then (Inl ErrFailedGetCRL, emit (HttpGet url) s)
           else case crlRead g (Body resp) of
                  Inl e \<Rightarrow> (Inl e, emit (HttpGet url) s)
                | Inr body \<Rightarrow> (x509_ParseCRL w body, emit (HttpGet url) s)))"

definition fetchRemote ::
  "env \<Rightarrow> globals \<Rightarrow> string \<Rightarrow> 'l state \<Rightarrow> (error + Certificate) \<times> 'l state" where
  "fetchRemote w g url s =
     (case Get (HTTPClient g) (requests (trace s)) url of
        Inl e \<Rightarrow> (Inl e, emit (HttpGet url) s)
      | Inr resp \<Rightarrow>
          (case remoteRead g (Body resp) of
             Inl e \<Rightarrow> (Inl e, emit (HttpGet url) s)
           | Inr body \<Rightarrow>
               (if pem_Decode w body then (ParseCertificatePEM w body, emit (HttpGet url) s)
                else (x509_ParseCertificate w body, emit (HttpGet url) s))))"

fun getIssuer_loop ::
  "env \<Rightarrow> globals \<Rightarrow> string list \<Rightarrow> 'l state \<Rightarrow> Certificate option \<times> 'l state" where
  "getIssuer_loop w g [] s = (None, s)"
| "getIssuer_loop w g (issuingCert # rest) s =
     (case fetchRemote w g issuingCert s of
        (Inl e, s') \<Rightarrow> getIssuer_loop w g rest s'
      | (Inr issuer, s') \<Rightarrow> (Some issuer, s'))"

definition getIssuer ::
  "env \<Rightarrow> globals \<Rightarrow> Certificate \<Rightarrow> 'l state \<Rightarrow> Certificate option \<times> 'l state" where
  "getIssuer w g cert s = getIssuer_loop w g (IssuingCertificateURL cert) s"

text \<open>
  The package-level CRL check releases the lock right after the lookup and takes it
  again around the store. As in the Verifier, the last branch is never taken.
\<close>

definition certIsRevokedCRL ::
  "env \<Rightarrow> globals \<Rightarrow> Certificate \<Rightarrow> string \<Rightarrow> RevocationList state
     \<Rightarrow> verdict \<times> RevocationList state" where
  "certIsRevokedCRL w g cert url s0 =
     (let s1 = emit MutexLock s0;
          (cached, s2) =
            (case crls s1 url of
               None \<Rightarrow> (None, s1)
             | Some None \<Rightarrow> (None, s1\<lparr>crls := (crls s1)(url := None)\<rparr>)
             | Some (Some crl) \<Rightarrow> (Some crl, s1));
          s2u = emit MutexUnlock s2;
          (shouldFetchCRL, s3) =
            (case cached of
               None \<Rightarrow> (True, s2u)
             | Some crl \<Rightarrow>
                 (let (now, s') = time_Now w s2u
                  in (if now < NextUpdate crl then False else True, s')));
          (issuer, s4) = getIssuer w g cert s3
      in if shouldFetchCRL then
           (case fetchCRL w g url s4 of
              (Inl e, s5) \<Rightarrow> ((False, False, Some e), s5)
            | (Inr crl, s5) \<Rightarrow>
                (case (case issuer of
                         None \<Rightarrow> None
                       | Some i \<Rightarrow> CheckSignatureFrom w crl i) of
                   Some e \<Rightarrow> ((False, False, Some e), s5)
                 | None \<Rightarrow>
                     (let s6 = emit MutexUnlock
                                 ((emit MutexLock s5)\<lparr>crls := (crls s5)(url := Some (Some crl))\<rparr>)
                      in ((serial_listed (SerialNumber cert) (RevokedCertificates crl),
                           True, None), s6))))
         else
           (case cached of
              Some crl \<Rightarrow>
                ((serial_listed (SerialNumber cert) (RevokedCertificates crl), True, None), s4)
            | None \<Rightarrow> ((False, True, None), s4)))"

text \<open>
  The build before go1.19: \<open>HasExpired(now)\<close> is \<open>\<not> now.Before(NextUpdate)\<close>, the
  issuer checks the signature, and the entries are those of \<open>TBSCertList\<close>.
\<close>

definition certIsRevokedCRL_legacy ::
  "env \<Rightarrow> globals \<Rightarrow> Certificate \<Rightarrow> string \<Rightarrow> CertificateList state
     \<Rightarrow> verdict \<times> CertificateList state" where
  "certIsRevokedCRL_legacy w g cert url s0 =
     (let s1 = emit MutexLock s0;
          (cached, s2) =
            (case crls s1 url of
               None \<Rightarrow> (None, s1)
             | Some None \<Rightarrow> (None, s1\<lparr>crls := (crls s1)(url := None)\<rparr>)
             | Some (Some crl) \<Rightarrow> (Some crl, s1));
          s2u = emit MutexUnlock s2;
          (shouldFetchCRL, s3) =
            (case cached of
               None \<Rightarrow> (True, s2u)
             | Some crl \<Rightarrow>
                 (let (now, s') = time_Now w s2u
                  in (if \<not> (\<not> now < TBSCertList_NextUpdate crl) then False else True, s')));
          (issuer, s4) = getIssuer w g cert s3
      in if shouldFetchCRL then
           (case fetchCRL_legacy w g url s4 of
              (Inl e, s5) \<Rightarrow> ((False, False, Some e), s5)
            | (Inr crl, s5) \<Rightarrow>
                (case (case issuer of
                         None \<Rightarrow> None
                       | Some i \<Rightarrow> CheckCRLSignature w i crl) of
                   Some e \<Rightarrow> ((False, False, Some e), s5)
                 | None \<Rightarrow>
                     (let s6 = emit MutexUnlock
                                 ((emit MutexLock s5)\<lparr>crls := (crls s5)(url := Some (Some crl))\<rparr>)
                      in ((serial_listed (SerialNumber cert) (TBSCertList_RevokedCertificates crl),
                           True, None), s6))))
         else
           (case cached of
              Some crl \<Rightarrow>
                ((serial_listed (SerialNumber cert) (TBSCertList_RevokedCertificates crl),
                  True, None), s4)
            | None \<Rightarrow> ((False, True, None), s4)))"

definition sendOCSPRequest ::
  "env \<Rightarrow> globals \<Rightarrow> string \<Rightarrow> string \<Rightarrow> Certificate \<Rightarrow> Certificate \<Rightarrow> 'l state
     \<Rightarrow> (error + ocsp_Response) \<times> 'l state" where
  "sendOCSPRequest w g server req leaf issuer s =
     (let (sent, s') =
            (if length req > 256
             then (Post (HTTPClient g) (requests (trace s)) server ''application/ocsp-request'' req,
                   emit (HttpPost server ''application/ocsp-request'' req) s)
             else (let reqURL = server @ ''/'' @ url_QueryEscape w (base64_EncodeToString w req)
                   in (Get (HTTPClient g) (requests (trace s)) reqURL, emit (HttpGet reqURL) s)))
      in case sent of
           Inl e \<Rightarrow> (Inl e, s')
         | Inr resp \<Rightarrow>
             (if StatusCode resp \<noteq> 200 then (Inl (ErrorNew ''failed to retrieve OSCP''), s')
              else case ocspRead g (Body resp) of
                     Inl e \<Rightarrow> (Inl e, s')
                   | Inr body \<Rightarrow>
                       (case ocsp_error_switch w body of
                          Some e \<Rightarrow> (Inl e, s')
                        | None \<Rightarrow> (ocsp_ParseResponseForCert w body leaf issuer, s'))))"

text \<open>
  In the loop of \<open>certIsRevokedOCSP\<close> the error of a send is a new variable of the
  loop body; the \<open>err\<close> returned after the loop is the one of the function body, which
  the loop never assigns. The parameter \<open>err\<close> is that outer variable.
\<close>

fun certIsRevokedOCSP_loop ::
  "env \<Rightarrow> globals \<Rightarrow> bool \<Rightarrow> string list \<Rightarrow> string \<Rightarrow> Certificate \<Rightarrow> Certificate
     \<Rightarrow> error option \<Rightarrow> 'l state \<Rightarrow> verdict \<times> 'l state" where
  "certIsRevokedOCSP_loop w g strict' [] req leaf issuer err s = ((False, False, err), s)"
| "certIsRevokedOCSP_loop w g strict' (server # servers) req leaf issuer err s =
     (case sendOCSPRequest w g server req leaf issuer s of
        (Inl e, s') \<Rightarrow>
          (if strict' then ((False, False, Some e), s')
           else certIsRevokedOCSP_loop w g strict' servers req leaf issuer err s')
      | (Inr resp, s') \<Rightarrow>
          ((if Status resp \<noteq> ocsp_Good then True else False, True, None), s'))"

definition certIsRevokedOCSP ::
  "env \<Rightarrow> globals \<Rightarrow> Certificate \<Rightarrow> bool \<Rightarrow> 'l state \<Rightarrow> verdict \<times> 'l state" where
  "certIsRevokedOCSP w g leaf strict' s =
     (if length (OCSPServer leaf) = 0 then ((False, True, None), s)
      else case getIssuer w g leaf s of
             (None, s1) \<Rightarrow> ((False, False, None), s1)
           | (Some issuer, s1) \<Rightarrow>
               (case ocsp_CreateRequest w leaf issuer of
                  Inl e \<Rightarrow> ((False, False, Some e), s1)
                | Inr req \<Rightarrow>
                    certIsRevokedOCSP_loop w g strict' (OCSPServer leaf) req leaf issuer None s1))"

fun revCheck_loop ::
  "env \<Rightarrow> globals \<Rightarrow> Certificate \<Rightarrow> string list \<Rightarrow> RevocationList state
     \<Rightarrow> verdict \<times> RevocationList state" where
  "revCheck_loop w g cert [] s =
     (case certIsRevokedOCSP w g cert (HardFail g) s of
        ((revoked, ok, err), s') \<Rightarrow>
          (if \<not> ok then
             (if HardFail g then ((True, False, err), s') else ((False, False, err), s'))
           else if revoked then ((True, True, err), s')
           else ((False, True, None), s')))"
| "revCheck_loop w g cert (url # urls) s =
     (if ldapURL w url then revCheck_loop w g cert urls s
      else case certIsRevokedCRL w g cert url s of
             ((revoked, ok, err), s') \<Rightarrow>
               (if \<not> ok then
                  (if HardFail g then ((True, False, err), s') else ((False, False, err), s'))
                else if revoked then ((True, True, err), s')
                else revCheck_loop w g cert urls s'))"

definition revCheck ::
  "env \<Rightarrow> globals \<Rightarrow> Certificate \<Rightarrow> RevocationList state \<Rightarrow> verdict \<times> RevocationList state" where
  "revCheck w g cert s = revCheck_loop w g cert (CRLDistributionPoints cert) s"

text \<open>
  \<open>VerifyCertificateError\<close> formats the message first and passes it to \<open>fmt.Errorf\<close>;
  the error value is the same message.
\<close>

definition VerifyCertificateError ::
  "env \<Rightarrow> globals \<Rightarrow> Certificate \<Rightarrow> RevocationList state \<Rightarrow> verdict \<times> RevocationList state" where
  "VerifyCertificateError w g cert s =
     (let (now1, s1) = time_Now w s
      in if \<not> now1 < NotAfter cert
         then ((True, True, Some (Errorf (''Certificate expired %s'' @ [CHR 0x0A]) (NotAfter cert))), s1)
         else (let (now2, s2) = time_Now w s1
               in if \<not> now2 > NotBefore cert
                  then ((True, True,
                         Some (Errorf (''Certificate isn't valid until %s'' @ [CHR 0x0A])
                                 (NotBefore cert))), s2)
                  else revCheck w g cert s2))"

definition VerifyCertificate ::
  "env \<Rightarrow> globals \<Rightarrow> Certificate \<Rightarrow> RevocationList state \<Rightarrow> (bool \<times> bool) \<times> RevocationList state" where
  "VerifyCertificate w g cert s =
     (case VerifyCertificateError w g cert s of
        ((revoked, ok, err), s') \<Rightarrow> ((revoked, ok), s'))"

section \<open>Notions used to state the properties\<close>

text \<open>
  Whether some HTTP request of a trace is sent while the cache lock is held; the first
  argument says whether the lock is held where the trace starts.
\<close>

fun lock_held_at_request :: "bool \<Rightarrow> event list \<Rightarrow> bool" where
  "lock_held_at_request held [] = False"
| "lock_held_at_request held (MutexLock # es) = lock_held_at_request True es"
| "lock_held_at_request held (MutexUnlock # es) = lock_held_at_request False es"
| "lock_held_at_request held (HttpGet url # es) = (held \<or> lock_held_at_request held es)"
| "lock_held_at_request held (HttpPost url ctype body # es) =
     (held \<or> lock_held_at_request held es)"

text \<open>The cache after the lookup: an entry that is present with a nil list is deleted.\<close>

definition evict_nil :: "(string \<Rightarrow> 'l option option) \<Rightarrow> string \<Rightarrow> (string \<Rightarrow> 'l option option)" where
  "evict_nil c url = (if c url = Some None then c(url := None) else c)"

text \<open>
  The orchestrator's loop gets past a list of distribution points when each of them is
  skipped as an LDAP URL or checked with the result "checked, not revoked"; the value
  is the state the loop is in afterwards.
\<close>

fun CertificateRevoked_passes ::
  "env \<Rightarrow> Verifier \<Rightarrow> Certificate \<Rightarrow> string list \<Rightarrow> RevocationList state
     \<Rightarrow> RevocationList state option" where
  "CertificateRevoked_passes w v cert [] s = Some s"
| "CertificateRevoked_passes w v cert (uri # uris) s =
     (if ldapURL w uri then CertificateRevoked_passes w v cert uris s
      else case CertificateRevokedCRL w v cert uri s of
             ((revoked, ok, err), s') \<Rightarrow>
               if ok \<and> \<not> revoked then CertificateRevoked_passes w v cert uris s' else None)"

fun revCheck_passes ::
  "env \<Rightarrow> globals \<Rightarrow> Certificate \<Rightarrow> string list \<Rightarrow> RevocationList state
     \<Rightarrow> RevocationList state option" where
  "revCheck_passes w g cert [] s = Some s"
| "revCheck_passes w g cert (url # urls) s =
     (if ldapURL w url then revCheck_passes w g cert urls s
      else case certIsRevokedCRL w g cert url s of
             ((revoked, ok, err), s') \<Rightarrow>
               if ok \<and> \<not> revoked then revCheck_passes w g cert urls s' else None)"

text \<open>The state in which the orchestrator starts its loop: two clock readings later.\<close>

definition after_temporal_check :: "'l state \<Rightarrow> 'l state" where
  "after_temporal_check s = s\<lparr>ticks := Suc (Suc (ticks s))\<rparr>"

text \<open>
  The package-level variables and a Verifier carry the same capabilities: the same
  client, the same policy, and readers that read alike.
\<close>

definition same_capabilities :: "globals \<Rightarrow> Verifier \<Rightarrow> bool" where
  "same_capabilities g v =
     (HTTPClient g = client v \<and> HardFail g = strict v \<and> remoteRead g = reader v \<and>
      crlRead g = readfunc v (readerCRL v) \<and> ocspRead g = readfunc v (readerOCSP v))"

section \<open>Notions used to compare the package-level functions with the Verifier\<close>

text \<open>
  Two states that differ at most in the lock events of their traces: the same cache, the
  same number of clock readings, the same requests sent.
\<close>

definition sim :: "'l state \<Rightarrow> 'l state \<Rightarrow> bool" where
  "sim s t = (crls s = crls t \<and> ticks s = ticks t \<and> requests (trace s) = requests (trace t))"

text \<open>Two results with the same revoked and checked flags, in states that are alike.\<close>

definition agree :: "verdict \<times> 'l state \<Rightarrow> verdict \<times> 'l state \<Rightarrow> bool" where
  "agree a b =
     (fst (fst a) = fst (fst b) \<and> fst (snd (fst a)) = fst (snd (fst b)) \<and> sim (snd a) (snd b))"

text \<open>
  The package-level check reads \<open>RevokedCertificates\<close> and the Verifier reads
  \<open>RevokedCertificateEntries\<close>; the parser of the standard library fills both from the
  same entries. This says so of every list the parser returns and of every list in a cache.
\<close>

definition lists_agree :: "env \<Rightarrow> (string \<Rightarrow> RevocationList option option) \<Rightarrow> bool" where
  "lists_agree w c =
     ((\<forall>body l. x509_ParseRevocationList w body = Inr l \<longrightarrow>
          RevokedCertificates l = RevokedCertificateEntries l) \<and>
      (\<forall>u l. c u = Some (Some l) \<longrightarrow> RevokedCertificates l = RevokedCertificateEntries l))"

text \<open>
  The CRL checks from issuer resolution on, when the list is to be fetched, as functions
  of the state after the lookup. They only serve to split the proofs.
\<close>

definition certIsRevokedCRL_refetch ::
  "env \<Rightarrow> globals \<Rightarrow> Certificate \<Rightarrow> string \<Rightarrow> RevocationList state
     \<Rightarrow> verdict \<times> RevocationList state" where
  "certIsRevokedCRL_refetch w g cert url s3 =
     (case getIssuer w g cert s3 of
        (issuer, s4) \<Rightarrow>
          (case fetchCRL w g url s4 of
             (Inl e, s5) \<Rightarrow> ((False, False, Some e), s5)
           | (Inr crl, s5) \<Rightarrow>
               (case (case issuer of None \<Rightarrow> None | Some i \<Rightarrow> CheckSignatureFrom w crl i) of
                  Some e \<Rightarrow> ((False, False, Some e), s5)
                | None \<Rightarrow>
                    (let s6 = emit MutexUnlock
                                ((emit MutexLock s5)\<lparr>crls := (crls s5)(url := Some (Some crl))\<rparr>)
                     in ((serial_listed (SerialNumber cert) (RevokedCertificates crl),
                          True, None), s6)))))"

definition CertificateRevokedCRL_refetch ::
  "env \<Rightarrow> Verifier \<Rightarrow> Certificate \<Rightarrow> string \<Rightarrow> RevocationList state
     \<Rightarrow> verdict \<times> RevocationList state" where
  "CertificateRevokedCRL_refetch w v cert uri s3 =
     (case GetIssuer w v cert s3 of
        (issuer, s4) \<Rightarrow>
          (case Verifier_fetchCRL w v uri s4 of
             (Inl e, s5) \<Rightarrow> ((False, False, Some e), emit MutexUnlock s5)
           | (Inr crl, s5) \<Rightarrow>
               (case (case issuer of None \<Rightarrow> None | Some i \<Rightarrow> CheckSignatureFrom w crl i) of
                  Some e \<Rightarrow> ((False, False, Some e), emit MutexUnlock s5)
                | None \<Rightarrow>
                    (let s6 = s5\<lparr>crls := (crls s5)(uri := Some (Some crl))\<rparr>
                     in ((serial_listed (SerialNumber cert) (RevokedCertificateEntries crl),
                          True, None), emit MutexUnlock s6)))))"

text \<open>
  The state after the lookup when the list is to be fetched: a nil entry is deleted, and
  the clock has been read if a list was found.
\<close>

definition after_lookup :: "string \<Rightarrow> RevocationList state \<Rightarrow> RevocationList state" where
  "after_lookup url s =
     (case crls s url of
        None \<Rightarrow> s
      | Some None \<Rightarrow> s\<lparr>crls := (crls s)(url := None)\<rparr>
      | Some (Some l) \<Rightarrow> s\<lparr>ticks := Suc (ticks s)\<rparr>)"

text \<open>The same for the package-level check, which has released the lock by then.\<close>

definition after_lookup_unlock :: "string \<Rightarrow> RevocationList state \<Rightarrow> RevocationList state" where
  "after_lookup_unlock url s =
     (case crls s url of
        None \<Rightarrow> emit MutexUnlock (emit MutexLock s)
      | Some None \<Rightarrow> emit MutexUnlock ((emit MutexLock s)\<lparr>crls := (crls s)(url := None)\<rparr>)
      | Some (Some l) \<Rightarrow> (emit MutexUnlock (emit MutexLock s))\<lparr>ticks := Suc (ticks s)\<rparr>)"

section \<open>Example inputs\<close>

definition ex_issuer :: Certificate where
  "ex_issuer = \<lparr>SerialNumber = 1, NotBefore = 0, NotAfter = 5000,
     CRLDistributionPoints = [], OCSPServer = [], IssuingCertificateURL = []\<rparr>"

definition ex_crl :: RevocationList where
  "ex_crl = \<lparr>NextUpdate = 200, RevokedCertificates = [7], RevokedCertificateEntries = [7]\<rparr>"

definition ex_crl_legacy :: CertificateList where
  "ex_crl_legacy = \<lparr>TBSCertList_NextUpdate = 200, TBSCertList_RevokedCertificates = [7]\<rparr>"

text \<open>
  An environment at instant 100 whose parsers know one issuer certificate, one
  revocation list (listing serial 7) and one OCSP response (status good).
\<close>

definition ex_env :: env where
  "ex_env = \<lparr>
     clock = (\<lambda>n. 100),
     url_Parse_Scheme = (\<lambda>u. Inr (takeWhile (\<lambda>c. c \<noteq> CHR '':'') u)),
     pem_Decode = (\<lambda>b. False),
     ParseCertificatePEM = (\<lambda>b. Inl (ErrorNew ''no PEM block'')),
     x509_ParseCertificate =
       (\<lambda>b. if b = ''issuer-der'' then Inr ex_issuer else Inl (ErrorNew ''malformed certificate'')),
     x509_ParseRevocationList =
       (\<lambda>b. if b = ''crl-der'' then Inr ex_crl else Inl (ErrorNew ''malformed CRL'')),
     x509_ParseCRL =
       (\<lambda>b. if b = ''crl-der'' then Inr ex_crl_legacy else Inl (ErrorNew ''malformed CRL'')),
     CheckSignatureFrom = (\<lambda>l i. None),
     CheckCRLSignature = (\<lambda>i l. None),
     ocsp_CreateRequest = (\<lambda>c i. Inr ''ocsp-request''),
     ocsp_ParseResponseForCert =
       (\<lambda>b c i. if b = ''good'' then Inr \<lparr>Status = ocsp_Good\<rparr>
                else Inl (ErrorNew ''malformed OCSP response'')),
     base64_EncodeToString = (\<lambda>b. b),
     url_QueryEscape = (\<lambda>b. b),
     UnauthorizedErrorResponse = [CHR 0x30, CHR 0x03, CHR 0x0A, CHR 0x01, CHR 0x06],
     MalformedRequestErrorResponse = [CHR 0x30, CHR 0x03, CHR 0x0A, CHR 0x01, CHR 0x01],
     InternalErrorErrorResponse = [CHR 0x30, CHR 0x03, CHR 0x0A, CHR 0x01, CHR 0x02],
     TryLaterErrorResponse = [CHR 0x30, CHR 0x03, CHR 0x0A, CHR 0x01, CHR 0x03],
     SigRequredErrorResponse = [CHR 0x30, CHR 0x03, CHR 0x0A, CHR 0x01, CHR 0x05]\<rparr>"

text \<open>A client that reaches the CA's two URLs and nothing else.\<close>

definition ex_client :: http_Client where
  "ex_client = \<lparr>
     Get = (\<lambda>sent url.
              if url = ''http://ca/crl'' then Inr \<lparr>StatusCode = 200, Body = ''crl-der''\<rparr>
              else if url = ''http://ca/issuer'' then Inr \<lparr>StatusCode = 200, Body = ''issuer-der''\<rparr>
              else Inl (ErrorNew ''connection refused'')),
     Post = (\<lambda>sent url ctype body. Inl (ErrorNew ''connection refused''))\<rparr>"

definition ex_verifier :: "bool \<Rightarrow> Verifier" where
  "ex_verifier b = \<lparr>client = ex_client, strict = b, reader = Inr,
     readerCRL = None, readerOCSP = None\<rparr>"

definition ex_globals :: "bool \<Rightarrow> globals" where
  "ex_globals b = \<lparr>HTTPClient = ex_client, HardFail = b, crlRead = Inr,
     remoteRead = Inr, ocspRead = Inr\<rparr>"

definition ex_state :: "'l state" where
  "ex_state = \<lparr>crls = (\<lambda>u. None), trace = [], ticks = 0\<rparr>"

definition ex_state_cached :: "RevocationList state" where
  "ex_state_cached =
     \<lparr>crls = (\<lambda>u. if u = ''http://ca/crl'' then Some (Some ex_crl) else None),
      trace = [], ticks = 0\<rparr>"

text \<open>Serial 7, valid from 0 to 1000, one reachable distribution point, one issuer URL.\<close>

definition ex_cert_listed :: Certificate where
  "ex_cert_listed = \<lparr>SerialNumber = 7, NotBefore = 0, NotAfter = 1000,
     CRLDistributionPoints = [''http://ca/crl''], OCSPServer = [],
     IssuingCertificateURL = [''http://ca/issuer'']\<rparr>"

text \<open>The same with an LDAP distribution point and one that cannot be reached.\<close>

definition ex_cert_crl_down :: Certificate where
  "ex_cert_crl_down = \<lparr>SerialNumber = 7, NotBefore = 0, NotAfter = 1000,
     CRLDistributionPoints = [''ldap://ca/crl'', ''http://down/crl''], OCSPServer = [],
     IssuingCertificateURL = [''http://ca/issuer'']\<rparr>"

text \<open>No usable distribution point (LDAP only), one OCSP responder, no issuer URL.\<close>

definition ex_cert_no_issuer :: Certificate where
  "ex_cert_no_issuer = \<lparr>SerialNumber = 9, NotBefore = 0, NotAfter = 1000,
     CRLDistributionPoints = [''ldap://ca/crl''], OCSPServer = [''http://down/ocsp''],
     IssuingCertificateURL = []\<rparr>"

text \<open>No distribution point, an OCSP responder that cannot be reached, a resolvable issuer.\<close>

definition ex_cert_ocsp_down :: Certificate where
  "ex_cert_ocsp_down = \<lparr>SerialNumber = 9, NotBefore = 0, NotAfter = 1000,
     CRLDistributionPoints = [], OCSPServer = [''http://down/ocsp''],
     IssuingCertificateURL = [''http://ca/issuer'']\<rparr>"

text \<open>Expired at instant 50.\<close>

definition ex_cert_expired :: Certificate where
  "ex_cert_expired = \<lparr>SerialNumber = 9, NotBefore = 0, NotAfter = 50,
     CRLDistributionPoints = [''http://ca/crl''], OCSPServer = [''http://down/ocsp''],
     IssuingCertificateURL = [''http://ca/issuer'']\<rparr>"

text \<open>Not valid before instant 500.\<close>

definition ex_cert_premature :: Certificate where
  "ex_cert_premature = \<lparr>SerialNumber = 9, NotBefore = 500, NotAfter = 1000,
     CRLDistributionPoints = [''http://ca/crl''], OCSPServer = [''http://down/ocsp''],
     IssuingCertificateURL = [''http://ca/issuer'']\<rparr>"

section \<open>Collections of definitions for evaluation\<close>

lemmas ex_defs =
  ex_env_def ex_client_def ex_verifier_def ex_globals_def ex_state_def ex_state_cached_def
  ex_issuer_def ex_crl_def ex_crl_legacy_def
  ex_cert_listed_def ex_cert_crl_down_def ex_cert_no_issuer_def ex_cert_ocsp_down_def
  ex_cert_expired_def ex_cert_premature_def

lemmas Verifier_defs =
  CertificateRevokedCRL_def CertificateRevokedOCSP_def GetIssuer_def fetchCert_def fetch_def
  Verifier_fetchCRL_def fetchOCSP_def readfunc_def

lemmas package_defs =
  certIsRevokedCRL_def certIsRevokedOCSP_def getIssuer_def fetchRemote_def fetchCRL_def
  sendOCSPRequest_def

lemmas legacy_defs = certIsRevokedCRL_legacy_def fetchCRL_legacy_def getIssuer_def fetchRemote_def

lemmas helper_defs =
  Let_def emit_def time_Now_def ldapURL_def after_temporal_check_def requests_def
  ocsp_error_switch_def

section \<open>Frame lemmas\<close>

lemma crls_emit: "crls (emit e s) = crls s"
  and trace_emit: "trace (emit e s) = trace s @ [e]"
  and ticks_emit: "ticks (emit e s) = ticks s"
  by (simp_all add: emit_def)

lemma requests_append: "requests (xs @ ys) = requests xs @ requests ys"
  by (simp add: requests_def)

lemma requests_emit: "requests (trace (emit e s)) = requests (trace s) @ requests [e]"
  by (simp add: emit_def requests_def)

lemma requests_map_HttpGet: "requests (map HttpGet urls) = map HttpGet urls"
  by (induction urls) (simp_all add: requests_def)

lemma serial_listed_iff: "serial_listed n rs \<longleftrightarrow> n \<in> set rs"
  by (induction rs) auto

lemma lock_held_at_request_gets:
  "lock_held_at_request held (map HttpGet us @ es) =
     ((held \<and> us \<noteq> []) \<or> lock_held_at_request held es)"
  by (induction us) auto

lemma sim_emit_request: "sim s t \<Longrightarrow> sim (emit e s) (emit e t)"
  by (simp add: sim_def emit_def requests_def)

lemma sim_emit_lock:
  "sim (emit MutexLock s) t = sim s t" "sim (emit MutexUnlock s) t = sim s t"
  "sim s (emit MutexLock t) = sim s t" "sim s (emit MutexUnlock t) = sim s t"
  by (simp_all add: sim_def emit_def requests_def)

lemma snd_fetch: "snd (fetch v url read s) = emit (HttpGet url) s"
  by (simp add: fetch_def split: sum.splits)

lemma snd_fetchCert: "snd (fetchCert w v url s) = emit (HttpGet url) s"
  using snd_fetch [of v url "reader v" s]
  by (auto simp: fetchCert_def split: prod.splits sum.splits)

lemma snd_Verifier_fetchCRL: "snd (Verifier_fetchCRL w v url s) = emit (HttpGet url) s"
  using snd_fetch [of v url "readfunc v (readerCRL v)" s]
  by (auto simp: Verifier_fetchCRL_def split: prod.splits sum.splits)

lemma snd_fetchRemote: "snd (fetchRemote w g url s) = emit (HttpGet url) s"
  by (simp add: fetchRemote_def split: sum.splits)

lemma snd_fetchCRL: "snd (fetchCRL w g url s) = emit (HttpGet url) s"
  by (simp add: fetchCRL_def split: sum.splits)

lemma snd_fetchCRL_legacy: "snd (fetchCRL_legacy w g url s) = emit (HttpGet url) s"
  by (simp add: fetchCRL_legacy_def split: sum.splits)

lemma snd_fetchOCSP:
  "snd (fetchOCSP w v server req leaf issuer s) =
     emit (if length req \<le> 256
           then HttpGet (server @ ''/'' @ url_QueryEscape w (base64_EncodeToString w req))
           else HttpPost server ''application/ocsp-request'' req) s"
  by (simp add: fetchOCSP_def Let_def split: sum.splits option.splits)

lemma snd_sendOCSPRequest:
  "snd (sendOCSPRequest w g server req leaf issuer s) =
     emit (if length req \<le> 256
           then HttpGet (server @ ''/'' @ url_QueryEscape w (base64_EncodeToString w req))
           else HttpPost server ''application/ocsp-request'' req) s"
  by (simp add: sendOCSPRequest_def Let_def split: sum.splits option.splits)

lemma crls_Verifier_fetchCRL: "Verifier_fetchCRL w v url s = (r, s') \<Longrightarrow> crls s' = crls s"
  using snd_Verifier_fetchCRL [of w v url s] by (simp add: crls_emit)

lemma crls_fetchCRL: "fetchCRL w g url s = (r, s') \<Longrightarrow> crls s' = crls s"
  using snd_fetchCRL [of w g url s] by (simp add: crls_emit)

lemma crls_fetchCRL_legacy: "fetchCRL_legacy w g url s = (r, s') \<Longrightarrow> crls s' = crls s"
  using snd_fetchCRL_legacy [of w g url s] by (simp add: crls_emit)

lemma Verifier_fetchCRL_parsed:
  "Verifier_fetchCRL w v url s = (Inr l, s') \<Longrightarrow> \<exists>body. x509_ParseRevocationList w body = Inr l"
  by (auto simp: Verifier_fetchCRL_def split: prod.splits sum.splits if_splits)

lemma fetchCRL_parsed:
  "fetchCRL w g url s = (Inr l, s') \<Longrightarrow> \<exists>body. x509_ParseRevocationList w body = Inr l"
  by (auto simp: fetchCRL_def split: prod.splits sum.splits if_splits)

lemma fetchCRL_legacy_parsed:
  "fetchCRL_legacy w g url s = (Inr l, s') \<Longrightarrow> \<exists>body. x509_ParseCRL w body = Inr l"
  by (auto simp: fetchCRL_legacy_def split: prod.splits sum.splits if_splits)

lemma Verifier_fetchCRL_result:
  "Verifier_fetchCRL w v url s = (r, s') \<Longrightarrow>
   crls s' = crls s \<and> (\<forall>l. r = Inr l \<longrightarrow> (\<exists>body. x509_ParseRevocationList w body = Inr l))"
  using crls_Verifier_fetchCRL Verifier_fetchCRL_parsed by blast

lemma fetchCRL_result:
  "fetchCRL w g url s = (r, s') \<Longrightarrow>
   crls s' = crls s \<and> (\<forall>l. r = Inr l \<longrightarrow> (\<exists>body. x509_ParseRevocationList w body = Inr l))"
  using crls_fetchCRL fetchCRL_parsed by blast

lemma fetchCRL_legacy_result:
  "fetchCRL_legacy w g url s = (r, s') \<Longrightarrow>
   crls s' = crls s \<and> (\<forall>l. r = Inr l \<longrightarrow> (\<exists>body. x509_ParseCRL w body = Inr l))"
  using crls_fetchCRL_legacy fetchCRL_legacy_parsed by blast

lemma Verifier_fetchCRL_trace:
  "Verifier_fetchCRL w v url t = (r, x) \<Longrightarrow> trace x = trace t @ [HttpGet url]"
  using snd_Verifier_fetchCRL [of w v url t] by (simp add: trace_emit)

lemma fetchCRL_trace:
  "fetchCRL w g url t = (r, x) \<Longrightarrow> trace x = trace t @ [HttpGet url]"
  using snd_fetchCRL [of w g url t] by (simp add: trace_emit)

lemma fetchCRL_legacy_trace:
  "fetchCRL_legacy w g url t = (r, x) \<Longrightarrow> trace x = trace t @ [HttpGet url]"
  using snd_fetchCRL_legacy [of w g url t] by (simp add: trace_emit)

section \<open>Issuer resolution\<close>

lemma GetIssuer_loop_absent:
  "fst (GetIssuer_loop w v uris s) = None \<Longrightarrow>
   snd (GetIssuer_loop w v uris s) = s\<lparr>trace := trace s @ map HttpGet uris\<rparr>"
proof (induction uris arbitrary: s)
  case Nil
  then show ?case by simp
next
  case (Cons uri uris)
  obtain r s' where f: "fetchCert w v uri s = (r, s')" by (cases "fetchCert w v uri s")
  have s': "s' = emit (HttpGet uri) s" using snd_fetchCert [of w v uri s] f by simp
  show ?case
  proof (cases r)
    case (Inl e)
    with Cons f have "snd (GetIssuer_loop w v uris s') = s'\<lparr>trace := trace s' @ map HttpGet uris\<rparr>"
      by simp
    with Inl f s' show ?thesis by (simp add: emit_def)
  next
    case (Inr c)
    with Cons.prems f show ?thesis by simp
  qed
qed

lemma snd_getIssuer_loop_absent:
  "fst (getIssuer_loop w g uris s) = None \<Longrightarrow>
   snd (getIssuer_loop w g uris s) = s\<lparr>trace := trace s @ map HttpGet uris\<rparr>"
proof (induction uris arbitrary: s)
  case Nil
  then show ?case by simp
next
  case (Cons uri uris)
  obtain r s' where f: "fetchRemote w g uri s = (r, s')" by (cases "fetchRemote w g uri s")
  have s': "s' = emit (HttpGet uri) s" using snd_fetchRemote [of w g uri s] f by simp
  show ?case
  proof (cases r)
    case (Inl e)
    with Cons f have "snd (getIssuer_loop w g uris s') = s'\<lparr>trace := trace s' @ map HttpGet uris\<rparr>"
      by simp
    with Inl f s' show ?thesis by (simp add: emit_def)
  next
    case (Inr c)
    with Cons.prems f show ?thesis by simp
  qed
qed

lemma snd_GetIssuer_loop:
  "\<exists>n\<le>length uris. snd (GetIssuer_loop w v uris s) = s\<lparr>trace := trace s @ map HttpGet (take n uris)\<rparr>"
proof (induction uris arbitrary: s)
  case Nil
  then show ?case by simp
next
  case (Cons uri uris)
  obtain r s' where f: "fetchCert w v uri s = (r, s')" by (cases "fetchCert w v uri s")
  have s': "s' = emit (HttpGet uri) s" using snd_fetchCert [of w v uri s] f by simp
  show ?case
  proof (cases r)
    case (Inl e)
    from Cons.IH [of s'] obtain n where n: "n \<le> length uris"
      "snd (GetIssuer_loop w v uris s') = s'\<lparr>trace := trace s' @ map HttpGet (take n uris)\<rparr>"
      by blast
    have "snd (GetIssuer_loop w v (uri # uris) s) =
            s\<lparr>trace := trace s @ map HttpGet (take (Suc n) (uri # uris))\<rparr>"
      using Inl f n(2) by (simp add: s' emit_def)
    with n(1) show ?thesis by (intro exI [of _ "Suc n"]) simp
  next
    case (Inr c)
    have "snd (GetIssuer_loop w v (uri # uris) s) =
            s\<lparr>trace := trace s @ map HttpGet (take (Suc 0) (uri # uris))\<rparr>"
      using Inr f by (simp add: s' emit_def)
    then show ?thesis by (intro exI [of _ "Suc 0"]) simp
  qed
qed

lemma snd_getIssuer_loop:
  "\<exists>n\<le>length uris. snd (getIssuer_loop w g uris s) = s\<lparr>trace := trace s @ map HttpGet (take n uris)\<rparr>"
proof (induction uris arbitrary: s)
  case Nil
  then show ?case by simp
next
  case (Cons uri uris)
  obtain r s' where f: "fetchRemote w g uri s = (r, s')" by (cases "fetchRemote w g uri s")
  have s': "s' = emit (HttpGet uri) s" using snd_fetchRemote [of w g uri s] f by simp
  show ?case
  proof (cases r)
    case (Inl e)
    from Cons.IH [of s'] obtain n where n: "n \<le> length uris"
      "snd (getIssuer_loop w g uris s') = s'\<lparr>trace := trace s' @ map HttpGet (take n uris)\<rparr>"
      by blast
    have "snd (getIssuer_loop w g (uri # uris) s) =
            s\<lparr>trace := trace s @ map HttpGet (take (Suc n) (uri # uris))\<rparr>"
      using Inl f n(2) by (simp add: s' emit_def)
    with n(1) show ?thesis by (intro exI [of _ "Suc n"]) simp
  next
    case (Inr c)
    have "snd (getIssuer_loop w g (uri # uris) s) =
            s\<lparr>trace := trace s @ map HttpGet (take (Suc 0) (uri # uris))\<rparr>"
      using Inr f by (simp add: s' emit_def)
    then show ?thesis by (intro exI [of _ "Suc 0"]) simp
  qed
qed

lemma crls_GetIssuer: "crls (snd (GetIssuer w v cert s)) = crls s"
  using snd_GetIssuer_loop [of "IssuingCertificateURL cert" w v s]
  by (auto simp: GetIssuer_def)

lemma crls_getIssuer: "crls (snd (getIssuer w g cert s)) = crls s"
  using snd_getIssuer_loop [of "IssuingCertificateURL cert" w g s]
  by (auto simp: getIssuer_def)

lemma crls_GetIssuer_eq: "GetIssuer w v cert s = (i, s') \<Longrightarrow> crls s' = crls s"
  using crls_GetIssuer [of w v cert s] by simp

lemma crls_getIssuer_eq: "getIssuer w g cert s = (i, s') \<Longrightarrow> crls s' = crls s"
  using crls_getIssuer [of w g cert s] by simp

lemma fst_fetchCert_cong:
  "requests (trace s) = requests (trace t) \<Longrightarrow> fst (fetchCert w v url s) = fst (fetchCert w v url t)"
  by (simp add: fetchCert_def fetch_def split: sum.splits prod.splits)

lemma fst_fetchRemote_cong:
  "requests (trace s) = requests (trace t) \<Longrightarrow> fst (fetchRemote w g url s) = fst (fetchRemote w g url t)"
  by (simp add: fetchRemote_def split: sum.splits prod.splits)

lemma GetIssuer_loop_cong:
  "requests (trace s) = requests (trace t) \<Longrightarrow>
   fst (GetIssuer_loop w v uris s) = fst (GetIssuer_loop w v uris t)"
proof (induction uris arbitrary: s t)
  case Nil
  then show ?case by simp
next
  case (Cons uri uris)
  obtain r s' where fs: "fetchCert w v uri s = (r, s')" by (cases "fetchCert w v uri s")
  obtain r' t' where ft: "fetchCert w v uri t = (r', t')" by (cases "fetchCert w v uri t")
  have r: "r' = r" using fst_fetchCert_cong [OF Cons.prems, of w v uri] fs ft by simp
  have s': "s' = emit (HttpGet uri) s" using snd_fetchCert [of w v uri s] fs by simp
  have t': "t' = emit (HttpGet uri) t" using snd_fetchCert [of w v uri t] ft by simp
  have "requests (trace s') = requests (trace t')"
    using Cons.prems by (simp add: s' t' requests_emit)
  then have "fst (GetIssuer_loop w v uris s') = fst (GetIssuer_loop w v uris t')"
    by (rule Cons.IH)
  then show ?case using fs ft r by (cases r) simp_all
qed

lemma getIssuer_loop_cong:
  "requests (trace s) = requests (trace t) \<Longrightarrow>
   fst (getIssuer_loop w g uris s) = fst (getIssuer_loop w g uris t)"
proof (induction uris arbitrary: s t)
  case Nil
  then show ?case by simp
next
  case (Cons uri uris)
  obtain r s' where fs: "fetchRemote w g uri s = (r, s')" by (cases "fetchRemote w g uri s")
  obtain r' t' where ft: "fetchRemote w g uri t = (r', t')" by (cases "fetchRemote w g uri t")
  have r: "r' = r" using fst_fetchRemote_cong [OF Cons.prems, of w g uri] fs ft by simp
  have s': "s' = emit (HttpGet uri) s" using snd_fetchRemote [of w g uri s] fs by simp
  have t': "t' = emit (HttpGet uri) t" using snd_fetchRemote [of w g uri t] ft by simp
  have "requests (trace s') = requests (trace t')"
    using Cons.prems by (simp add: s' t' requests_emit)
  then have "fst (getIssuer_loop w g uris s') = fst (getIssuer_loop w g uris t')"
    by (rule Cons.IH)
  then show ?case using fs ft r by (cases r) simp_all
qed

lemma fst_GetIssuer_cong:
  "requests (trace s) = requests (trace t) \<Longrightarrow> fst (GetIssuer w v cert s) = fst (GetIssuer w v cert t)"
  unfolding GetIssuer_def by (rule GetIssuer_loop_cong)

lemma fst_getIssuer_cong:
  "requests (trace s) = requests (trace t) \<Longrightarrow> fst (getIssuer w g cert s) = fst (getIssuer w g cert t)"
  unfolding getIssuer_def by (rule getIssuer_loop_cong)

lemma fst_GetIssuer_frame:
  "fst (GetIssuer w v cert (emit MutexLock s)) = fst (GetIssuer w v cert s)"
  "fst (GetIssuer w v cert (s\<lparr>crls := c\<rparr>)) = fst (GetIssuer w v cert s)"
  "fst (GetIssuer w v cert (s\<lparr>ticks := n\<rparr>)) = fst (GetIssuer w v cert s)"
  by (rule fst_GetIssuer_cong, simp add: emit_def requests_def)+

lemma fst_getIssuer_frame:
  "fst (getIssuer w g cert (emit MutexLock s)) = fst (getIssuer w g cert s)"
  "fst (getIssuer w g cert (emit MutexUnlock s)) = fst (getIssuer w g cert s)"
  "fst (getIssuer w g cert (s\<lparr>crls := c\<rparr>)) = fst (getIssuer w g cert s)"
  "fst (getIssuer w g cert (s\<lparr>ticks := n\<rparr>)) = fst (getIssuer w g cert s)"
  by (rule fst_getIssuer_cong, simp add: emit_def requests_def)+

lemma fst_GetIssuer_after_temporal_check:
  "fst (GetIssuer w v cert (after_temporal_check s)) = fst (GetIssuer w v cert s)"
  unfolding GetIssuer_def
  by (rule GetIssuer_loop_cong) (simp add: after_temporal_check_def)

lemma fst_getIssuer_after_temporal_check:
  "fst (getIssuer w g cert (after_temporal_check s)) = fst (getIssuer w g cert s)"
  unfolding getIssuer_def
  by (rule getIssuer_loop_cong) (simp add: after_temporal_check_def)

lemma GetIssuer_result: "GetIssuer w v cert t = (i, x) \<Longrightarrow> crls x = crls t \<and> fst (GetIssuer w v cert t) = i"
  using crls_GetIssuer [of w v cert t] by simp

lemma getIssuer_result: "getIssuer w g cert t = (i, x) \<Longrightarrow> crls x = crls t \<and> fst (getIssuer w g cert t) = i"
  using crls_getIssuer [of w g cert t] by simp

lemma GetIssuer_trace:
  "GetIssuer w v cert t = (i, x) \<Longrightarrow>
   \<exists>n. trace x = trace t @ map HttpGet (take n (IssuingCertificateURL cert))"
  using snd_GetIssuer_loop [of "IssuingCertificateURL cert" w v t]
  by (auto simp: GetIssuer_def)

lemma getIssuer_trace:
  "getIssuer w g cert t = (i, x) \<Longrightarrow>
   \<exists>n. trace x = trace t @ map HttpGet (take n (IssuingCertificateURL cert))"
  using snd_getIssuer_loop [of "IssuingCertificateURL cert" w g t]
  by (auto simp: getIssuer_def)

lemma requests_GetIssuer:
  "\<exists>n\<le>length (IssuingCertificateURL cert).
     requests (trace (snd (GetIssuer w v cert s))) =
       requests (trace s) @ map HttpGet (take n (IssuingCertificateURL cert))"
proof -
  from snd_GetIssuer_loop [of "IssuingCertificateURL cert" w v s]
  obtain n where n: "n \<le> length (IssuingCertificateURL cert)"
    "snd (GetIssuer w v cert s) = s\<lparr>trace := trace s @ map HttpGet (take n (IssuingCertificateURL cert))\<rparr>"
    unfolding GetIssuer_def by blast
  from n(2) have "requests (trace (snd (GetIssuer w v cert s))) =
       requests (trace s) @ map HttpGet (take n (IssuingCertificateURL cert))"
    by (simp add: requests_append requests_map_HttpGet)
  with n(1) show ?thesis by blast
qed

lemma requests_getIssuer:
  "\<exists>n\<le>length (IssuingCertificateURL cert).
     requests (trace (snd (getIssuer w g cert s))) =
       requests (trace s) @ map HttpGet (take n (IssuingCertificateURL cert))"
proof -
  from snd_getIssuer_loop [of "IssuingCertificateURL cert" w g s]
  obtain n where n: "n \<le> length (IssuingCertificateURL cert)"
    "snd (getIssuer w g cert s) = s\<lparr>trace := trace s @ map HttpGet (take n (IssuingCertificateURL cert))\<rparr>"
    unfolding getIssuer_def by blast
  from n(2) have "requests (trace (snd (getIssuer w g cert s))) =
       requests (trace s) @ map HttpGet (take n (IssuingCertificateURL cert))"
    by (simp add: requests_append requests_map_HttpGet)
  with n(1) show ?thesis by blast
qed

section \<open>The CRL check\<close>

lemma CertificateRevokedCRL_unchecked:
  assumes "CertificateRevokedCRL w v cert uri s = ((r, False, e), s')"
  shows "\<not> r \<and> e \<noteq> None"
  using assms
  by (auto simp: CertificateRevokedCRL_def Let_def
           split: prod.splits option.splits sum.splits if_splits)
     metis

lemma certIsRevokedCRL_unchecked:
  assumes "certIsRevokedCRL w g cert url s = ((r, False, e), s')"
  shows "\<not> r \<and> e \<noteq> None"
  using assms
  by (auto simp: certIsRevokedCRL_def Let_def
           split: prod.splits option.splits sum.splits if_splits)
     metis

lemma CertificateRevokedCRL_checked:
  assumes "CertificateRevokedCRL w v cert uri s = ((r, True, e), s')"
  shows "e = None \<and> (\<exists>l. crls s' uri = Some (Some l) \<and>
           r = (SerialNumber cert \<in> set (RevokedCertificateEntries l)))"
  using assms
  by (auto simp: CertificateRevokedCRL_def Let_def crls_emit crls_GetIssuer time_Now_def
                 serial_listed_iff
           split: prod.splits option.splits sum.splits if_splits
           dest!: arg_cong [where f = "\<lambda>p. crls (snd p)"])

lemma certIsRevokedCRL_checked:
  assumes "certIsRevokedCRL w g cert url s = ((r, True, e), s')"
  shows "e = None \<and> (\<exists>l. crls s' url = Some (Some l) \<and>
           r = (SerialNumber cert \<in> set (RevokedCertificates l)))"
  using assms
  by (auto simp: certIsRevokedCRL_def Let_def crls_emit crls_getIssuer time_Now_def
                 serial_listed_iff
           split: prod.splits option.splits sum.splits if_splits
           dest!: arg_cong [where f = "\<lambda>p. crls (snd p)"])

lemma CertificateRevokedCRL_hit:
  assumes "crls s uri = Some (Some l)" and "clock w (ticks s) < NextUpdate l"
  shows "CertificateRevokedCRL w v cert uri s =
           ((SerialNumber cert \<in> set (RevokedCertificateEntries l), True, None),
            emit MutexUnlock
              (snd (GetIssuer w v cert ((emit MutexLock s)\<lparr>ticks := Suc (ticks s)\<rparr>))))"
  using assms
  by (simp add: CertificateRevokedCRL_def Let_def crls_emit ticks_emit time_Now_def
                serial_listed_iff split: prod.splits)

lemma certIsRevokedCRL_hit:
  assumes "crls s url = Some (Some l)" and "clock w (ticks s) < NextUpdate l"
  shows "certIsRevokedCRL w g cert url s =
           ((SerialNumber cert \<in> set (RevokedCertificates l), True, None),
            snd (getIssuer w g cert
                   ((emit MutexUnlock (emit MutexLock s))\<lparr>ticks := Suc (ticks s)\<rparr>)))"
  using assms
  by (simp add: certIsRevokedCRL_def Let_def crls_emit ticks_emit time_Now_def
                serial_listed_iff split: prod.splits)

lemma CertificateRevokedCRL_miss:
  assumes "\<forall>l. crls s uri = Some (Some l) \<longrightarrow> \<not> clock w (ticks s) < NextUpdate l"
  shows "CertificateRevokedCRL w v cert uri s =
           CertificateRevokedCRL_refetch w v cert uri (after_lookup uri (emit MutexLock s))"
proof (cases "crls s uri")
  case None
  then show ?thesis
    by (simp add: CertificateRevokedCRL_def CertificateRevokedCRL_refetch_def after_lookup_def
                  Let_def crls_emit)
next
  case (Some c)
  show ?thesis
  proof (cases c)
    case None
    with Some show ?thesis
      by (simp add: CertificateRevokedCRL_def CertificateRevokedCRL_refetch_def after_lookup_def
                    Let_def crls_emit emit_def)
  next
    case (Some l)
    with \<open>crls s uri = Some c\<close> assms show ?thesis
      by (simp add: CertificateRevokedCRL_def CertificateRevokedCRL_refetch_def after_lookup_def
                    Let_def crls_emit ticks_emit time_Now_def)
  qed
qed

lemma certIsRevokedCRL_miss:
  assumes "\<forall>l. crls s url = Some (Some l) \<longrightarrow> \<not> clock w (ticks s) < NextUpdate l"
  shows "certIsRevokedCRL w g cert url s =
           certIsRevokedCRL_refetch w g cert url (after_lookup_unlock url s)"
proof (cases "crls s url")
  case None
  then show ?thesis
    by (simp add: certIsRevokedCRL_def certIsRevokedCRL_refetch_def after_lookup_unlock_def Let_def
                  crls_emit)
next
  case (Some c)
  show ?thesis
  proof (cases c)
    case None
    with Some show ?thesis
      by (simp add: certIsRevokedCRL_def certIsRevokedCRL_refetch_def after_lookup_unlock_def Let_def
                    crls_emit)
  next
    case (Some l)
    with \<open>crls s url = Some c\<close> assms show ?thesis
      by (simp add: certIsRevokedCRL_def certIsRevokedCRL_refetch_def after_lookup_unlock_def Let_def
                    crls_emit ticks_emit time_Now_def)
  qed
qed

lemma CertificateRevokedCRL_error_cache:
  assumes "CertificateRevokedCRL w v cert uri s = ((r, ok, Some e), s')"
  shows "crls s' = evict_nil (crls s) uri"
  using assms
  by (auto simp: CertificateRevokedCRL_def Let_def crls_emit time_Now_def evict_nil_def
           split: prod.splits option.splits sum.splits if_splits
           dest!: crls_Verifier_fetchCRL crls_GetIssuer_eq)

lemma certIsRevokedCRL_error_cache:
  assumes "certIsRevokedCRL w g cert url s = ((r, ok, Some e), s')"
  shows "crls s' = evict_nil (crls s) url"
  using assms
  by (auto simp: certIsRevokedCRL_def Let_def crls_emit ticks_emit time_Now_def evict_nil_def
           split: prod.splits option.splits sum.splits if_splits
           dest!: fetchCRL_result getIssuer_result)

lemma certIsRevokedCRL_legacy_error_cache:
  assumes "certIsRevokedCRL_legacy w g cert url s = ((r, ok, Some e), s')"
  shows "crls s' = evict_nil (crls s) url"
  using assms
  by (auto simp: certIsRevokedCRL_legacy_def Let_def crls_emit ticks_emit time_Now_def evict_nil_def
           split: prod.splits option.splits sum.splits if_splits
           dest!: fetchCRL_legacy_result getIssuer_result)

lemma CertificateRevokedCRL_cache_cases:
  assumes "CertificateRevokedCRL w v cert uri s = ((r, ok, e), s')"
  shows "crls s' = evict_nil (crls s) uri \<or>
         (e = None \<and> ok \<and>
          (\<exists>l. crls s' = (crls s)(uri := Some (Some l)) \<and>
               (\<exists>body. x509_ParseRevocationList w body = Inr l) \<and>
               (\<forall>i. fst (GetIssuer w v cert s) = Some i \<longrightarrow> CheckSignatureFrom w l i = None)))"
  using assms
  by (auto simp: CertificateRevokedCRL_def Let_def crls_emit ticks_emit time_Now_def evict_nil_def
                 fst_GetIssuer_frame
           split: prod.splits option.splits sum.splits if_splits
           dest!: Verifier_fetchCRL_result GetIssuer_result)

lemma certIsRevokedCRL_cache_cases:
  assumes "certIsRevokedCRL w g cert url s = ((r, ok, e), s')"
  shows "crls s' = evict_nil (crls s) url \<or>
         (e = None \<and> ok \<and>
          (\<exists>l. crls s' = (crls s)(url := Some (Some l)) \<and>
               (\<exists>body. x509_ParseRevocationList w body = Inr l) \<and>
               (\<forall>i. fst (getIssuer w g cert s) = Some i \<longrightarrow> CheckSignatureFrom w l i = None)))"
  using assms
  by (auto simp: certIsRevokedCRL_def Let_def crls_emit ticks_emit time_Now_def evict_nil_def
                 fst_getIssuer_frame
           split: prod.splits option.splits sum.splits if_splits
           dest!: fetchCRL_result getIssuer_result)

lemma certIsRevokedCRL_legacy_cache_cases:
  assumes "certIsRevokedCRL_legacy w g cert url s = ((r, ok, e), s')"
  shows "crls s' = evict_nil (crls s) url \<or>
         (e = None \<and> ok \<and>
          (\<exists>l. crls s' = (crls s)(url := Some (Some l)) \<and>
               (\<exists>body. x509_ParseCRL w body = Inr l) \<and>
               (\<forall>i. fst (getIssuer w g cert s) = Some i \<longrightarrow> CheckCRLSignature w i l = None)))"
  using assms
  by (auto simp: certIsRevokedCRL_legacy_def Let_def crls_emit ticks_emit time_Now_def evict_nil_def
                 fst_getIssuer_frame
           split: prod.splits option.splits sum.splits if_splits
           dest!: fetchCRL_legacy_result getIssuer_result)

lemma CertificateRevokedCRL_trace:
  "\<exists>us. trace (snd (CertificateRevokedCRL w v cert uri s)) =
          trace s @ MutexLock # map HttpGet us @ [MutexUnlock]"
proof -
  have "(\<exists>n. trace (snd (CertificateRevokedCRL w v cert uri s)) =
           trace s @ MutexLock # map HttpGet (take n (IssuingCertificateURL cert)) @ [MutexUnlock]) \<or>
        (\<exists>n. trace (snd (CertificateRevokedCRL w v cert uri s)) =
           trace s @ MutexLock # map HttpGet (take n (IssuingCertificateURL cert) @ [uri]) @ [MutexUnlock])"
    by (auto simp: CertificateRevokedCRL_def Let_def trace_emit time_Now_def
             split: prod.splits option.splits sum.splits
             dest!: GetIssuer_trace Verifier_fetchCRL_trace)
  then show ?thesis by blast
qed

lemma certIsRevokedCRL_trace:
  "\<exists>us tail. trace (snd (certIsRevokedCRL w g cert url s)) =
          trace s @ [MutexLock, MutexUnlock] @ map HttpGet us @ tail \<and>
          (tail = [] \<or> tail = [MutexLock, MutexUnlock])"
proof -
  have "(\<exists>n. trace (snd (certIsRevokedCRL w g cert url s)) =
           trace s @ [MutexLock, MutexUnlock] @
           map HttpGet (take n (IssuingCertificateURL cert)) @ []) \<or>
        (\<exists>n. trace (snd (certIsRevokedCRL w g cert url s)) =
           trace s @ [MutexLock, MutexUnlock] @
           map HttpGet (take n (IssuingCertificateURL cert) @ [url]) @ []) \<or>
        (\<exists>n. trace (snd (certIsRevokedCRL w g cert url s)) =
           trace s @ [MutexLock, MutexUnlock] @
           map HttpGet (take n (IssuingCertificateURL cert) @ [url]) @ [MutexLock, MutexUnlock])"
    by (auto simp: certIsRevokedCRL_def Let_def trace_emit time_Now_def
             split: prod.splits option.splits sum.splits
             dest!: getIssuer_trace fetchCRL_trace)
  then show ?thesis by blast
qed

lemma certIsRevokedCRL_legacy_trace:
  "\<exists>us tail. trace (snd (certIsRevokedCRL_legacy w g cert url s)) =
          trace s @ [MutexLock, MutexUnlock] @ map HttpGet us @ tail \<and>
          (tail = [] \<or> tail = [MutexLock, MutexUnlock])"
proof -
  have "(\<exists>n. trace (snd (certIsRevokedCRL_legacy w g cert url s)) =
           trace s @ [MutexLock, MutexUnlock] @
           map HttpGet (take n (IssuingCertificateURL cert)) @ []) \<or>
        (\<exists>n. trace (snd (certIsRevokedCRL_legacy w g cert url s)) =
           trace s @ [MutexLock, MutexUnlock] @
           map HttpGet (take n (IssuingCertificateURL cert) @ [url]) @ []) \<or>
        (\<exists>n. trace (snd (certIsRevokedCRL_legacy w g cert url s)) =
           trace s @ [MutexLock, MutexUnlock] @
           map HttpGet (take n (IssuingCertificateURL cert) @ [url]) @ [MutexLock, MutexUnlock])"
    by (auto simp: certIsRevokedCRL_legacy_def Let_def trace_emit time_Now_def
             split: prod.splits option.splits sum.splits
             dest!: getIssuer_trace fetchCRL_legacy_trace)
  then show ?thesis by blast
qed

section \<open>The OCSP check\<close>

lemma CertificateRevokedOCSP_no_issuer:
  assumes "OCSPServer cert \<noteq> []" and "fst (GetIssuer w v cert s) = None"
  shows "CertificateRevokedOCSP w v cert s =
           ((False, False, None), s\<lparr>trace := trace s @ map HttpGet (IssuingCertificateURL cert)\<rparr>)"
proof -
  from assms(2) have "snd (GetIssuer w v cert s) =
      s\<lparr>trace := trace s @ map HttpGet (IssuingCertificateURL cert)\<rparr>"
    by (simp add: GetIssuer_def GetIssuer_loop_absent)
  with assms show ?thesis
    by (cases "GetIssuer w v cert s") (simp add: CertificateRevokedOCSP_def)
qed

lemma certIsRevokedOCSP_no_issuer:
  assumes "OCSPServer cert \<noteq> []" and "fst (getIssuer w g cert s) = None"
  shows "certIsRevokedOCSP w g cert strict' s =
           ((False, False, None), s\<lparr>trace := trace s @ map HttpGet (IssuingCertificateURL cert)\<rparr>)"
proof -
  from assms(2) have "snd (getIssuer w g cert s) =
      s\<lparr>trace := trace s @ map HttpGet (IssuingCertificateURL cert)\<rparr>"
    by (simp add: getIssuer_def snd_getIssuer_loop_absent)
  with assms show ?thesis
    by (cases "getIssuer w g cert s") (simp add: certIsRevokedOCSP_def)
qed

section \<open>The orchestrator\<close>

lemma CertificateRevoked_loop_passes:
  "CertificateRevoked_passes w v cert pre s = Some s' \<Longrightarrow>
   CertificateRevoked_loop w v cert (pre @ rest) s = CertificateRevoked_loop w v cert rest s'"
proof (induction pre arbitrary: s)
  case Nil
  then show ?case by simp
next
  case (Cons uri pre)
  show ?case
  proof (cases "ldapURL w uri")
    case True
    with Cons show ?thesis by simp
  next
    case False
    obtain r ok e s1 where c: "CertificateRevokedCRL w v cert uri s = ((r, ok, e), s1)"
      by (metis prod.exhaust)
    with Cons.prems False have ok: "ok" "\<not> r" and p: "CertificateRevoked_passes w v cert pre s1 = Some s'"
      by (auto split: if_splits)
    from Cons.IH [OF p] c ok False show ?thesis by simp
  qed
qed

lemma revCheck_loop_passes:
  "revCheck_passes w g cert pre s = Some s' \<Longrightarrow>
   revCheck_loop w g cert (pre @ rest) s = revCheck_loop w g cert rest s'"
proof (induction pre arbitrary: s)
  case Nil
  then show ?case by simp
next
  case (Cons url pre)
  show ?case
  proof (cases "ldapURL w url")
    case True
    with Cons show ?thesis by simp
  next
    case False
    obtain r ok e s1 where c: "certIsRevokedCRL w g cert url s = ((r, ok, e), s1)"
      by (metis prod.exhaust)
    with Cons.prems False have ok: "ok" "\<not> r" and p: "revCheck_passes w g cert pre s1 = Some s'"
      by (auto split: if_splits)
    from Cons.IH [OF p] c ok False show ?thesis by simp
  qed
qed

lemma CertificateRevoked_passes_ldap:
  "\<forall>u\<in>set dps. ldapURL w u \<Longrightarrow> CertificateRevoked_passes w v cert dps s = Some s"
  by (induction dps) simp_all

lemma revCheck_passes_ldap:
  "\<forall>u\<in>set dps. ldapURL w u \<Longrightarrow> revCheck_passes w g cert dps s = Some s"
  by (induction dps) simp_all

lemma CertificateValid_in_window:
  assumes "clock w (ticks s) < NotAfter cert" and "NotBefore cert < clock w (Suc (ticks s))"
  shows "CertificateValid w v cert s =
           CertificateRevoked_loop w v cert (CRLDistributionPoints cert) (after_temporal_check s)"
  using assms
  by (simp add: CertificateValid_def CertificateRevoked_def time_Now_def after_temporal_check_def)

lemma VerifyCertificateError_in_window:
  assumes "clock w (ticks s) < NotAfter cert" and "NotBefore cert < clock w (Suc (ticks s))"
  shows "VerifyCertificateError w g cert s =
           revCheck_loop w g cert (CRLDistributionPoints cert) (after_temporal_check s)"
  using assms
  by (simp add: VerifyCertificateError_def revCheck_def time_Now_def after_temporal_check_def)

section \<open>Failure of a CRL check (C1)\<close>

text \<open>
  Claim C1. For a certificate inside its validity window: when the orchestrator's loop
  gets past the distribution points \<open>pre\<close> and the CRL check of the next one (not an
  LDAP URL) returns checked = false with error \<open>e\<close>, then \<open>CertificateValid\<close> returns
  \<open>(strict, false, e)\<close> and \<open>VerifyCertificateError\<close> returns \<open>(HardFail, false, e)\<close>,
  that is \<open>(true, false, e)\<close> under the strict policy and \<open>(false, false, e)\<close> otherwise;
  \<open>e\<close> is a non-nil error, and the final state is the one that CRL check left: no
  further distribution point and no OCSP responder is consulted.
\<close>

theorem crl_unchecked_aborts:
  "(clock w (ticks s) < NotAfter cert \<and> NotBefore cert < clock w (Suc (ticks s)) \<and>
    CRLDistributionPoints cert = pre @ uri # post \<and>
    CertificateRevoked_passes w v cert pre (after_temporal_check s) = Some s1 \<and>
    \<not> ldapURL w uri \<and>
    CertificateRevokedCRL w v cert uri s1 = ((r, False, e), s2)
    \<longrightarrow> CertificateValid w v cert s = ((strict v, False, e), s2) \<and> e \<noteq> None) \<and>
   (clock w (ticks s) < NotAfter cert \<and> NotBefore cert < clock w (Suc (ticks s)) \<and>
    CRLDistributionPoints cert = pre @ uri # post \<and>
    revCheck_passes w g cert pre (after_temporal_check s) = Some t1 \<and>
    \<not> ldapURL w uri \<and>
    certIsRevokedCRL w g cert uri t1 = ((r', False, e'), t2)
    \<longrightarrow> VerifyCertificateError w g cert s = ((HardFail g, False, e'), t2) \<and> e' \<noteq> None)"
proof (intro conjI impI)
  assume a: "clock w (ticks s) < NotAfter cert \<and> NotBefore cert < clock w (Suc (ticks s)) \<and>
    CRLDistributionPoints cert = pre @ uri # post \<and>
    CertificateRevoked_passes w v cert pre (after_temporal_check s) = Some s1 \<and>
    \<not> ldapURL w uri \<and>
    CertificateRevokedCRL w v cert uri s1 = ((r, False, e), s2)"
  then have "CertificateValid w v cert s = CertificateRevoked_loop w v cert (uri # post) s1"
    by (simp add: CertificateValid_in_window CertificateRevoked_loop_passes)
  with a show "CertificateValid w v cert s = ((strict v, False, e), s2)" by simp
  from a show "e \<noteq> None" using CertificateRevokedCRL_unchecked by blast
next
  assume a: "clock w (ticks s) < NotAfter cert \<and> NotBefore cert < clock w (Suc (ticks s)) \<and>
    CRLDistributionPoints cert = pre @ uri # post \<and>
    revCheck_passes w g cert pre (after_temporal_check s) = Some t1 \<and>
    \<not> ldapURL w uri \<and>
    certIsRevokedCRL w g cert uri t1 = ((r', False, e'), t2)"
  then have "VerifyCertificateError w g cert s = revCheck_loop w g cert (uri # post) t1"
    by (simp add: VerifyCertificateError_in_window revCheck_loop_passes)
  with a show "VerifyCertificateError w g cert s = ((HardFail g, False, e'), t2)" by simp
  from a show "e' \<noteq> None" using certIsRevokedCRL_unchecked by blast
qed

theorem crl_unchecked_aborts_witness:
  "CertificateValid ex_env (ex_verifier True) ex_cert_crl_down ex_state =
     ((True, False, Some (ErrorNew ''connection refused'')),
      snd (CertificateRevokedCRL ex_env (ex_verifier True) ex_cert_crl_down ''http://down/crl''
             (after_temporal_check ex_state))) \<and>
   VerifyCertificateError ex_env (ex_globals False) ex_cert_crl_down ex_state =
     ((False, False, Some (ErrorNew ''connection refused'')),
      snd (certIsRevokedCRL ex_env (ex_globals False) ex_cert_crl_down ''http://down/crl''
             (after_temporal_check ex_state)))"
proof -
  let ?s = "after_temporal_check ex_state :: RevocationList state"
  let ?c = "CertificateRevokedCRL ex_env (ex_verifier True) ex_cert_crl_down ''http://down/crl'' ?s"
  let ?d = "certIsRevokedCRL ex_env (ex_globals False) ex_cert_crl_down ''http://down/crl'' ?s"
  have c: "fst ?c = (False, False, Some (ErrorNew ''connection refused''))"
    by (simp add: Verifier_defs helper_defs ex_defs)
  have d: "fst ?d = (False, False, Some (ErrorNew ''connection refused''))"
    by (simp add: package_defs helper_defs ex_defs)
  have w: "clock ex_env (ticks (ex_state :: RevocationList state)) < NotAfter ex_cert_crl_down"
    "NotBefore ex_cert_crl_down < clock ex_env (Suc (ticks (ex_state :: RevocationList state)))"
    "CRLDistributionPoints ex_cert_crl_down = [''ldap://ca/crl''] @ ''http://down/crl'' # []"
    "\<not> ldapURL ex_env ''http://down/crl''"
    by (simp_all add: ex_defs ldapURL_def)
  have p: "CertificateRevoked_passes ex_env (ex_verifier True) ex_cert_crl_down [''ldap://ca/crl''] ?s = Some ?s"
    "revCheck_passes ex_env (ex_globals False) ex_cert_crl_down [''ldap://ca/crl''] ?s = Some ?s"
    by (simp_all add: ldapURL_def ex_env_def)
  from c have c': "?c = ((False, False, Some (ErrorNew ''connection refused'')), snd ?c)"
    by (metis prod.collapse)
  from d have d': "?d = ((False, False, Some (ErrorNew ''connection refused'')), snd ?d)"
    by (metis prod.collapse)
  have sv: "strict (ex_verifier True)" "\<not> HardFail (ex_globals False)"
    by (simp_all add: ex_defs)
  from crl_unchecked_aborts [where w = ex_env and s = ex_state and cert = ex_cert_crl_down
      and pre = "[''ldap://ca/crl'']" and uri = "''http://down/crl''" and post = "[]"
      and v = "ex_verifier True" and ?s1.0 = ?s and r = False
      and e = "Some (ErrorNew ''connection refused'')" and ?s2.0 = "snd ?c"
      and g = "ex_globals False" and ?t1.0 = ?s and r' = False
      and e' = "Some (ErrorNew ''connection refused'')" and ?t2.0 = "snd ?d"]
    w p c' d' sv
  show ?thesis by simp
qed

section \<open>A cached, unexpired list (C2)\<close>

text \<open>
  Claim C2, as amended. When the cache holds for the URL a non-nil revocation list whose
  next-update instant is after the clock reading and whose entries contain the
  certificate's serial number, the CRL check returns \<open>(true, true, nil)\<close> and leaves the
  cache as it was. It does not fetch the list, but it does resolve the issuer first: the
  requests it sends are GETs to an initial segment of the certificate's issuer URLs, so
  it sends none when the certificate has no issuer URL.
\<close>

theorem cached_crl_hit:
  "(crls s uri = Some (Some l) \<and> clock w (ticks s) < NextUpdate l \<and>
    SerialNumber cert \<in> set (RevokedCertificateEntries l)
    \<longrightarrow> fst (CertificateRevokedCRL w v cert uri s) = (True, True, None) \<and>
        crls (snd (CertificateRevokedCRL w v cert uri s)) = crls s \<and>
        (\<exists>n\<le>length (IssuingCertificateURL cert).
           requests (trace (snd (CertificateRevokedCRL w v cert uri s))) =
             requests (trace s) @ map HttpGet (take n (IssuingCertificateURL cert))) \<and>
        (IssuingCertificateURL cert = [] \<longrightarrow>
           requests (trace (snd (CertificateRevokedCRL w v cert uri s))) = requests (trace s))) \<and>
   (crls s uri = Some (Some l) \<and> clock w (ticks s) < NextUpdate l \<and>
    SerialNumber cert \<in> set (RevokedCertificates l)
    \<longrightarrow> fst (certIsRevokedCRL w g cert uri s) = (True, True, None) \<and>
        crls (snd (certIsRevokedCRL w g cert uri s)) = crls s \<and>
        (\<exists>n\<le>length (IssuingCertificateURL cert).
           requests (trace (snd (certIsRevokedCRL w g cert uri s))) =
             requests (trace s) @ map HttpGet (take n (IssuingCertificateURL cert))) \<and>
        (IssuingCertificateURL cert = [] \<longrightarrow>
           requests (trace (snd (certIsRevokedCRL w g cert uri s))) = requests (trace s)))"
proof (intro conjI impI)
  assume a: "crls s uri = Some (Some l) \<and> clock w (ticks s) < NextUpdate l \<and>
    SerialNumber cert \<in> set (RevokedCertificateEntries l)"
  let ?s3 = "(emit MutexLock s)\<lparr>ticks := Suc (ticks s)\<rparr>"
  from a have c: "CertificateRevokedCRL w v cert uri s =
      ((True, True, None), emit MutexUnlock (snd (GetIssuer w v cert ?s3)))"
    by (simp add: CertificateRevokedCRL_hit)
  show "fst (CertificateRevokedCRL w v cert uri s) = (True, True, None)"
    by (simp add: c)
  show "crls (snd (CertificateRevokedCRL w v cert uri s)) = crls s"
    by (simp add: c crls_emit crls_GetIssuer)
  have r: "filter is_request (trace ?s3) = filter is_request (trace s)"
    by (simp add: emit_def)
  from requests_GetIssuer [of cert w v ?s3]
  show n: "\<exists>n\<le>length (IssuingCertificateURL cert).
           requests (trace (snd (CertificateRevokedCRL w v cert uri s))) =
             requests (trace s) @ map HttpGet (take n (IssuingCertificateURL cert))"
    by (simp add: c r requests_def trace_emit)
  assume "IssuingCertificateURL cert = []"
  with n show "requests (trace (snd (CertificateRevokedCRL w v cert uri s))) = requests (trace s)"
    by simp
next
  assume a: "crls s uri = Some (Some l) \<and> clock w (ticks s) < NextUpdate l \<and>
    SerialNumber cert \<in> set (RevokedCertificates l)"
  let ?s3 = "(emit MutexUnlock (emit MutexLock s))\<lparr>ticks := Suc (ticks s)\<rparr>"
  from a have c: "certIsRevokedCRL w g cert uri s =
      ((True, True, None), snd (getIssuer w g cert ?s3))"
    by (simp add: certIsRevokedCRL_hit)
  show "fst (certIsRevokedCRL w g cert uri s) = (True, True, None)"
    by (simp add: c)
  show "crls (snd (certIsRevokedCRL w g cert uri s)) = crls s"
    by (simp add: c crls_emit crls_getIssuer)
  from requests_getIssuer [of cert w g ?s3]
  show n: "\<exists>n\<le>length (IssuingCertificateURL cert).
           requests (trace (snd (certIsRevokedCRL w g cert uri s))) =
             requests (trace s) @ map HttpGet (take n (IssuingCertificateURL cert))"
    by (simp add: c requests_def trace_emit)
  assume "IssuingCertificateURL cert = []"
  with n show "requests (trace (snd (certIsRevokedCRL w g cert uri s))) = requests (trace s)"
    by simp
qed

theorem cached_crl_hit_witness:
  "fst (CertificateRevokedCRL ex_env (ex_verifier False) ex_cert_listed ''http://ca/crl''
          ex_state_cached) = (True, True, None) \<and>
   crls (snd (CertificateRevokedCRL ex_env (ex_verifier False) ex_cert_listed ''http://ca/crl''
          ex_state_cached)) = crls ex_state_cached \<and>
   fst (certIsRevokedCRL ex_env (ex_globals False) ex_cert_listed ''http://ca/crl''
          ex_state_cached) = (True, True, None) \<and>
   crls (snd (certIsRevokedCRL ex_env (ex_globals False) ex_cert_listed ''http://ca/crl''
          ex_state_cached)) = crls ex_state_cached"
  using cached_crl_hit [of ex_state_cached "''http://ca/crl''" ex_crl ex_env ex_cert_listed
          "ex_verifier False" "ex_globals False"]
  by (simp add: ex_defs)

text \<open>
  Claim C2 as stated fails: with a fresh cached list that contains the serial number, a
  certificate that names an issuer URL makes both CRL checks send one GET.
\<close>

theorem cached_crl_hit_counterexample:
  "crls ex_state_cached ''http://ca/crl'' = Some (Some ex_crl) \<and>
   clock ex_env (ticks ex_state_cached) < NextUpdate ex_crl \<and>
   SerialNumber ex_cert_listed \<in> set (RevokedCertificateEntries ex_crl) \<and>
   requests (trace ex_state_cached) = [] \<and>
   requests (trace (snd (CertificateRevokedCRL ex_env (ex_verifier False) ex_cert_listed
                           ''http://ca/crl'' ex_state_cached))) = [HttpGet ''http://ca/issuer''] \<and>
   requests (trace (snd (certIsRevokedCRL ex_env (ex_globals False) ex_cert_listed
                           ''http://ca/crl'' ex_state_cached))) = [HttpGet ''http://ca/issuer''] \<and>
   requests (trace (snd (CertificateRevokedCRL ex_env (ex_verifier False) ex_cert_listed
                           ''http://ca/crl'' ex_state_cached))) \<noteq>
     requests (trace ex_state_cached)"
  by (simp add: Verifier_defs package_defs helper_defs ex_defs)

section \<open>The temporal check (C3)\<close>

text \<open>
  Claim C3. If the clock reading is not before the certificate's not-after instant, or
  the next reading is not after its not-before instant, \<open>CertificateValid\<close> and
  \<open>VerifyCertificateError\<close> return \<open>(true, true, err)\<close> with a non-nil error, send
  no request and leave the cache as it was.
\<close>

theorem temporal_short_circuit:
  assumes "\<not> clock w (ticks s) < NotAfter cert \<or> \<not> NotBefore cert < clock w (Suc (ticks s))"
  shows "(\<exists>e. fst (CertificateValid w v cert s) = (True, True, Some e)) \<and>
         trace (snd (CertificateValid w v cert s)) = trace s \<and>
         crls (snd (CertificateValid w v cert s)) = crls s \<and>
         (\<exists>e. fst (VerifyCertificateError w g cert s) = (True, True, Some e)) \<and>
         trace (snd (VerifyCertificateError w g cert s)) = trace s \<and>
         crls (snd (VerifyCertificateError w g cert s)) = crls s"
  using assms
  by (auto simp: CertificateValid_def VerifyCertificateError_def time_Now_def)

theorem temporal_short_circuit_witness:
  "(\<exists>e. fst (CertificateValid ex_env (ex_verifier False) ex_cert_expired ex_state)
            = (True, True, Some e)) \<and>
   trace (snd (CertificateValid ex_env (ex_verifier False) ex_cert_expired ex_state)) = [] \<and>
   (\<exists>e. fst (VerifyCertificateError ex_env (ex_globals False) ex_cert_expired ex_state)
            = (True, True, Some e)) \<and>
   trace (snd (VerifyCertificateError ex_env (ex_globals False) ex_cert_expired ex_state)) = [] \<and>
   (\<exists>e. fst (CertificateValid ex_env (ex_verifier False) ex_cert_premature ex_state)
            = (True, True, Some e)) \<and>
   trace (snd (CertificateValid ex_env (ex_verifier False) ex_cert_premature ex_state)) = [] \<and>
   (\<exists>e. fst (VerifyCertificateError ex_env (ex_globals False) ex_cert_premature ex_state)
            = (True, True, Some e)) \<and>
   trace (snd (VerifyCertificateError ex_env (ex_globals False) ex_cert_premature ex_state)) = []"
  using temporal_short_circuit [of ex_env ex_state ex_cert_expired "ex_verifier False" "ex_globals False"]
        temporal_short_circuit [of ex_env ex_state ex_cert_premature "ex_verifier False" "ex_globals False"]
  by (simp add: ex_env_def ex_cert_expired_def ex_cert_premature_def ex_state_def)

section \<open>A listed serial number (C4)\<close>

text \<open>
  Claim C4. For a certificate inside its validity window: when the loop gets past the
  distribution points \<open>pre\<close> (none of them failed its check) and the CRL check of the
  next one succeeds with a revocation list that contains the certificate's serial
  number, the orchestrator returns \<open>(true, true, nil)\<close> in the state that CRL check
  left: the OCSP stage adds nothing.
\<close>

theorem crl_listed_short_circuits:
  "(clock w (ticks s) < NotAfter cert \<and> NotBefore cert < clock w (Suc (ticks s)) \<and>
    CRLDistributionPoints cert = pre @ uri # post \<and>
    CertificateRevoked_passes w v cert pre (after_temporal_check s) = Some s1 \<and>
    \<not> ldapURL w uri \<and>
    CertificateRevokedCRL w v cert uri s1 = ((r, True, e), s2) \<and>
    crls s2 uri = Some (Some l) \<and> SerialNumber cert \<in> set (RevokedCertificateEntries l)
    \<longrightarrow> CertificateValid w v cert s = ((True, True, None), s2)) \<and>
   (clock w (ticks s) < NotAfter cert \<and> NotBefore cert < clock w (Suc (ticks s)) \<and>
    CRLDistributionPoints cert = pre @ uri # post \<and>
    revCheck_passes w g cert pre (after_temporal_check s) = Some t1 \<and>
    \<not> ldapURL w uri \<and>
    certIsRevokedCRL w g cert uri t1 = ((r', True, e'), t2) \<and>
    crls t2 uri = Some (Some l') \<and> SerialNumber cert \<in> set (RevokedCertificates l')
    \<longrightarrow> VerifyCertificateError w g cert s = ((True, True, None), t2))"
proof (intro conjI impI)
  assume a: "clock w (ticks s) < NotAfter cert \<and> NotBefore cert < clock w (Suc (ticks s)) \<and>
    CRLDistributionPoints cert = pre @ uri # post \<and>
    CertificateRevoked_passes w v cert pre (after_temporal_check s) = Some s1 \<and>
    \<not> ldapURL w uri \<and>
    CertificateRevokedCRL w v cert uri s1 = ((r, True, e), s2) \<and>
    crls s2 uri = Some (Some l) \<and> SerialNumber cert \<in> set (RevokedCertificateEntries l)"
  then have v: "CertificateValid w v cert s = CertificateRevoked_loop w v cert (uri # post) s1"
    by (simp add: CertificateValid_in_window CertificateRevoked_loop_passes)
  from a have "e = None \<and> r" using CertificateRevokedCRL_checked [of w v cert uri s1 r e s2] by auto
  with a v show "CertificateValid w v cert s = ((True, True, None), s2)" by simp
next
  assume a: "clock w (ticks s) < NotAfter cert \<and> NotBefore cert < clock w (Suc (ticks s)) \<and>
    CRLDistributionPoints cert = pre @ uri # post \<and>
    revCheck_passes w g cert pre (after_temporal_check s) = Some t1 \<and>
    \<not> ldapURL w uri \<and>
    certIsRevokedCRL w g cert uri t1 = ((r', True, e'), t2) \<and>
    crls t2 uri = Some (Some l') \<and> SerialNumber cert \<in> set (RevokedCertificates l')"
  then have v: "VerifyCertificateError w g cert s = revCheck_loop w g cert (uri # post) t1"
    by (simp add: VerifyCertificateError_in_window revCheck_loop_passes)
  from a have "e' = None \<and> r'" using certIsRevokedCRL_checked [of w g cert uri t1 r' e' t2] by auto
  with a v show "VerifyCertificateError w g cert s = ((True, True, None), t2)" by simp
qed

theorem crl_listed_short_circuits_witness:
  "CertificateValid ex_env (ex_verifier False) ex_cert_listed ex_state =
     ((True, True, None),
      snd (CertificateRevokedCRL ex_env (ex_verifier False) ex_cert_listed ''http://ca/crl''
             (after_temporal_check ex_state))) \<and>
   VerifyCertificateError ex_env (ex_globals False) ex_cert_listed ex_state =
     ((True, True, None),
      snd (certIsRevokedCRL ex_env (ex_globals False) ex_cert_listed ''http://ca/crl''
             (after_temporal_check ex_state)))"
proof -
  let ?s = "after_temporal_check ex_state :: RevocationList state"
  let ?c = "CertificateRevokedCRL ex_env (ex_verifier False) ex_cert_listed ''http://ca/crl'' ?s"
  let ?d = "certIsRevokedCRL ex_env (ex_globals False) ex_cert_listed ''http://ca/crl'' ?s"
  have c: "fst ?c = (True, True, None)" "crls (snd ?c) ''http://ca/crl'' = Some (Some ex_crl)"
    by (simp_all add: Verifier_defs helper_defs ex_defs)
  have d: "fst ?d = (True, True, None)" "crls (snd ?d) ''http://ca/crl'' = Some (Some ex_crl)"
    by (simp_all add: package_defs helper_defs ex_defs)
  have w: "clock ex_env (ticks (ex_state :: RevocationList state)) < NotAfter ex_cert_listed"
    "NotBefore ex_cert_listed < clock ex_env (Suc (ticks (ex_state :: RevocationList state)))"
    "CRLDistributionPoints ex_cert_listed = [] @ ''http://ca/crl'' # []"
    "\<not> ldapURL ex_env ''http://ca/crl''"
    "SerialNumber ex_cert_listed \<in> set (RevokedCertificateEntries ex_crl)"
    "SerialNumber ex_cert_listed \<in> set (RevokedCertificates ex_crl)"
    by (simp_all add: ex_defs ldapURL_def)
  have p: "CertificateRevoked_passes ex_env (ex_verifier False) ex_cert_listed [] ?s = Some ?s"
    "revCheck_passes ex_env (ex_globals False) ex_cert_listed [] ?s = Some ?s"
    by simp_all
  from c have c': "?c = ((True, True, None), snd ?c)"
    by (metis prod.collapse)
  from d have d': "?d = ((True, True, None), snd ?d)"
    by (metis prod.collapse)
  from crl_listed_short_circuits [where w = ex_env and s = ex_state and cert = ex_cert_listed
      and pre = "[]" and uri = "''http://ca/crl''" and post = "[]"
      and v = "ex_verifier False" and ?s1.0 = ?s and r = True and e = None and ?s2.0 = "snd ?c"
      and l = ex_crl and g = "ex_globals False" and ?t1.0 = ?s and r' = True and e' = None
      and ?t2.0 = "snd ?d" and l' = ex_crl]
    w p c' d' c(2) d(2)
  show ?thesis by simp
qed

section \<open>The scope of the cache lock (C5)\<close>

text \<open>
  The package-level CRL check, in both builds, sends no request while it holds the lock.
\<close>

lemma certIsRevokedCRL_lock_scope:
  "\<not> lock_held_at_request False
       (drop (length (trace s)) (trace (snd (certIsRevokedCRL w g cert url s))))"
proof -
  from certIsRevokedCRL_trace [of w g cert url s] obtain us tail where
    t: "trace (snd (certIsRevokedCRL w g cert url s)) =
          trace s @ [MutexLock, MutexUnlock] @ map HttpGet us @ tail"
    and tail: "tail = [] \<or> tail = [MutexLock, MutexUnlock]"
    by blast
  from tail show ?thesis
    by (auto simp: t lock_held_at_request_gets)
qed

lemma certIsRevokedCRL_legacy_lock_scope:
  "\<not> lock_held_at_request False
       (drop (length (trace s)) (trace (snd (certIsRevokedCRL_legacy w g cert url s))))"
proof -
  from certIsRevokedCRL_legacy_trace [of w g cert url s] obtain us tail where
    t: "trace (snd (certIsRevokedCRL_legacy w g cert url s)) =
          trace s @ [MutexLock, MutexUnlock] @ map HttpGet us @ tail"
    and tail: "tail = [] \<or> tail = [MutexLock, MutexUnlock]"
    by blast
  from tail show ?thesis
    by (auto simp: t lock_held_at_request_gets)
qed

text \<open>
  The Verifier's CRL check holds the lock at every request it sends: whenever it sends
  one at all, a request is sent under the lock.
\<close>

lemma CertificateRevokedCRL_lock_scope:
  "lock_held_at_request False
     (drop (length (trace s)) (trace (snd (CertificateRevokedCRL w v cert uri s)))) =
   (requests (drop (length (trace s)) (trace (snd (CertificateRevokedCRL w v cert uri s)))) \<noteq> [])"
proof -
  from CertificateRevokedCRL_trace [of w v cert uri s] obtain us where
    t: "trace (snd (CertificateRevokedCRL w v cert uri s)) =
          trace s @ MutexLock # map HttpGet us @ [MutexUnlock]"
    by blast
  show ?thesis
    by (simp add: t lock_held_at_request_gets requests_append requests_map_HttpGet requests_def)
qed

text \<open>
  Claim C5 at a concrete input. On a cache miss the Verifier's CRL check sends the
  issuer GET and the CRL GET between taking the lock and releasing it, whereas the
  package-level check releases the lock before the first request and takes it again
  only around the store.
\<close>

theorem verifier_lock_held_across_fetch:
  "trace (snd (CertificateRevokedCRL ex_env (ex_verifier False) ex_cert_listed ''http://ca/crl''
                 ex_state)) =
     [MutexLock, HttpGet ''http://ca/issuer'', HttpGet ''http://ca/crl'', MutexUnlock] \<and>
   lock_held_at_request False
     (trace (snd (CertificateRevokedCRL ex_env (ex_verifier False) ex_cert_listed ''http://ca/crl''
                    ex_state))) \<and>
   trace (snd (certIsRevokedCRL ex_env (ex_globals False) ex_cert_listed ''http://ca/crl''
                 ex_state)) =
     [MutexLock, MutexUnlock, HttpGet ''http://ca/issuer'', HttpGet ''http://ca/crl'',
      MutexLock, MutexUnlock] \<and>
   \<not> lock_held_at_request False
     (trace (snd (certIsRevokedCRL ex_env (ex_globals False) ex_cert_listed ''http://ca/crl''
                    ex_state)))"
  by (simp add: Verifier_defs package_defs helper_defs ex_defs)

section \<open>Package-level functions against the Verifier (C6)\<close>

lemma fetchRemote_fetchCert:
  assumes "same_capabilities g v" and "sim s t"
  shows "fst (fetchRemote w g url s) = fst (fetchCert w v url t)"
  using assms
  by (simp add: same_capabilities_def sim_def fetchRemote_def fetchCert_def fetch_def
           split: sum.splits)

lemma getIssuer_GetIssuer_loop:
  assumes "same_capabilities g v" and "sim s t"
  shows "fst (getIssuer_loop w g uris s) = fst (GetIssuer_loop w v uris t) \<and>
         sim (snd (getIssuer_loop w g uris s)) (snd (GetIssuer_loop w v uris t))"
  using assms(2)
proof (induction uris arbitrary: s t)
  case Nil
  then show ?case by simp
next
  case (Cons uri uris)
  obtain r s' where fs: "fetchRemote w g uri s = (r, s')" by (cases "fetchRemote w g uri s")
  obtain r' t' where ft: "fetchCert w v uri t = (r', t')" by (cases "fetchCert w v uri t")
  have r: "r' = r" using fetchRemote_fetchCert [OF assms(1) Cons.prems, of w uri] fs ft by simp
  have s': "s' = emit (HttpGet uri) s" using snd_fetchRemote [of w g uri s] fs by simp
  have t': "t' = emit (HttpGet uri) t" using snd_fetchCert [of w v uri t] ft by simp
  have sim': "sim s' t'" using Cons.prems by (simp add: s' t' sim_emit_request)
  from Cons.IH [OF sim'] fs ft r sim' show ?case by (cases r) simp_all
qed

lemma getIssuer_GetIssuer:
  assumes "same_capabilities g v" and "sim s t"
  shows "fst (getIssuer w g cert s) = fst (GetIssuer w v cert t) \<and>
         sim (snd (getIssuer w g cert s)) (snd (GetIssuer w v cert t))"
  unfolding getIssuer_def GetIssuer_def by (rule getIssuer_GetIssuer_loop [OF assms])

lemma fetchCRL_Verifier_fetchCRL:
  assumes "same_capabilities g v" and "sim s t"
  shows "(\<forall>l. fst (fetchCRL w g url s) = Inr l \<longleftrightarrow> fst (Verifier_fetchCRL w v url t) = Inr l) \<and>
         sim (snd (fetchCRL w g url s)) (snd (Verifier_fetchCRL w v url t))"
proof -
  have "sim (snd (fetchCRL w g url s)) (snd (Verifier_fetchCRL w v url t))"
    using assms(2) by (simp add: snd_fetchCRL snd_Verifier_fetchCRL sim_emit_request)
  moreover have "\<forall>l. fst (fetchCRL w g url s) = Inr l \<longleftrightarrow> fst (Verifier_fetchCRL w v url t) = Inr l"
    using assms
    by (auto simp: same_capabilities_def sim_def fetchCRL_def Verifier_fetchCRL_def fetch_def
             split: sum.splits if_splits)
  ultimately show ?thesis by blast
qed

lemma sendOCSPRequest_fetchOCSP:
  assumes "same_capabilities g v" and "sim s t"
  shows "fst (sendOCSPRequest w g server req leaf issuer s) = fst (fetchOCSP w v server req leaf issuer t) \<and>
         sim (snd (sendOCSPRequest w g server req leaf issuer s)) (snd (fetchOCSP w v server req leaf issuer t))"
proof -
  have "sim (snd (sendOCSPRequest w g server req leaf issuer s)) (snd (fetchOCSP w v server req leaf issuer t))"
    using assms(2) by (simp add: snd_sendOCSPRequest snd_fetchOCSP sim_emit_request)
  moreover have "fst (sendOCSPRequest w g server req leaf issuer s) = fst (fetchOCSP w v server req leaf issuer t)"
    using assms
    by (simp add: same_capabilities_def sim_def sendOCSPRequest_def fetchOCSP_def Let_def
             split: sum.splits option.splits)
  ultimately show ?thesis by blast
qed

lemma refetch_agree:
  assumes caps: "same_capabilities g v" and sim: "sim S T" and la: "lists_agree w (crls S)"
  shows "agree (certIsRevokedCRL_refetch w g cert url S) (CertificateRevokedCRL_refetch w v cert url T) \<and>
         lists_agree w (crls (snd (certIsRevokedCRL_refetch w g cert url S)))"
proof -
  obtain i s4 where gi: "getIssuer w g cert S = (i, s4)" by (cases "getIssuer w g cert S")
  obtain j t4 where gj: "GetIssuer w v cert T = (j, t4)" by (cases "GetIssuer w v cert T")
  from getIssuer_GetIssuer [OF caps sim, of w cert] gi gj
  have ij: "j = i" and sim4: "sim s4 t4" by simp_all
  obtain r s5 where fr: "fetchCRL w g url s4 = (r, s5)" by (cases "fetchCRL w g url s4")
  obtain r' t5 where fr': "Verifier_fetchCRL w v url t4 = (r', t5)"
    by (cases "Verifier_fetchCRL w v url t4")
  from fetchCRL_Verifier_fetchCRL [OF caps sim4, of w url] fr fr'
  have rr: "\<forall>l. r = Inr l \<longleftrightarrow> r' = Inr l" and sim5: "sim s5 t5" by simp_all
  have c5: "crls s5 = crls S"
    using crls_fetchCRL [OF fr] crls_getIssuer_eq [OF gi] by simp
  show ?thesis
  proof (cases r)
    case (Inl e)
    with rr obtain e' where "r' = Inl e'" by (cases r') auto
    with Inl gi gj fr fr' sim5 la c5 show ?thesis
      by (simp add: certIsRevokedCRL_refetch_def CertificateRevokedCRL_refetch_def agree_def
                    sim_emit_lock)
  next
    case (Inr l)
    with rr have r': "r' = Inr l" by blast
    from fetchCRL_parsed [of w g url s4 l s5] fr Inr la
    have fields: "RevokedCertificates l = RevokedCertificateEntries l"
      by (auto simp: lists_agree_def)
    show ?thesis
    proof (cases "case i of None \<Rightarrow> None | Some i' \<Rightarrow> CheckSignatureFrom w l i'")
      case (Some e)
      with Inr r' ij gi gj fr fr' sim5 la c5 show ?thesis
        by (simp add: certIsRevokedCRL_refetch_def CertificateRevokedCRL_refetch_def agree_def
                      sim_emit_lock)
    next
      case None
      have "sim (emit MutexUnlock ((emit MutexLock s5)\<lparr>crls := (crls s5)(url := Some (Some l))\<rparr>))
                (emit MutexUnlock (t5\<lparr>crls := (crls t5)(url := Some (Some l))\<rparr>))"
        using sim5 by (simp add: sim_def emit_def requests_def)
      moreover have "lists_agree w ((crls s5)(url := Some (Some l)))"
        using la fields by (simp add: lists_agree_def c5)
      ultimately show ?thesis
        using None Inr r' ij gi gj fr fr' fields
        by (simp add: certIsRevokedCRL_refetch_def CertificateRevokedCRL_refetch_def agree_def
                      Let_def crls_emit)
    qed
  qed
qed

lemma sim_after_lookup:
  "sim s t \<Longrightarrow> sim (after_lookup_unlock url s) (after_lookup url (emit MutexLock t))"
  by (simp add: sim_def after_lookup_unlock_def after_lookup_def emit_def requests_def
           split: option.splits)

lemma lists_agree_after_lookup:
  "lists_agree w (crls s) \<Longrightarrow> lists_agree w (crls (after_lookup_unlock url s))"
  by (auto simp: lists_agree_def after_lookup_unlock_def emit_def split: option.splits if_splits)

lemma CRL_check_agree:
  assumes caps: "same_capabilities g v" and sim: "sim s t" and la: "lists_agree w (crls s)"
  shows "agree (certIsRevokedCRL w g cert url s) (CertificateRevokedCRL w v cert url t) \<and>
         lists_agree w (crls (snd (certIsRevokedCRL w g cert url s)))"
proof (cases "\<exists>l. crls s url = Some (Some l) \<and> clock w (ticks s) < NextUpdate l")
  case True
  then obtain l where l: "crls s url = Some (Some l)" "clock w (ticks s) < NextUpdate l" by blast
  from sim l have l': "crls t url = Some (Some l)" "clock w (ticks t) < NextUpdate l"
    by (simp_all add: sim_def)
  let ?S = "(emit MutexUnlock (emit MutexLock s))\<lparr>ticks := Suc (ticks s)\<rparr>"
  let ?T = "(emit MutexLock t)\<lparr>ticks := Suc (ticks t)\<rparr>"
  have "sim ?S ?T" using sim by (simp add: sim_def emit_def requests_def)
  from getIssuer_GetIssuer [OF caps this, of w cert]
  have s': "sim (snd (getIssuer w g cert ?S)) (snd (GetIssuer w v cert ?T))" by simp
  from la l have "RevokedCertificates l = RevokedCertificateEntries l"
    by (auto simp: lists_agree_def)
  with s' la show ?thesis
    by (simp add: certIsRevokedCRL_hit [OF l] CertificateRevokedCRL_hit [OF l'] agree_def
                  sim_emit_lock crls_getIssuer crls_emit)
next
  case False
  then have m: "\<forall>l. crls s url = Some (Some l) \<longrightarrow> \<not> clock w (ticks s) < NextUpdate l" by blast
  with sim have m': "\<forall>l. crls t url = Some (Some l) \<longrightarrow> \<not> clock w (ticks t) < NextUpdate l"
    by (simp add: sim_def)
  from refetch_agree [OF caps sim_after_lookup [OF sim] lists_agree_after_lookup [OF la]]
  show ?thesis
    by (simp add: certIsRevokedCRL_miss [OF m] CertificateRevokedCRL_miss [OF m'])
qed

lemma OCSP_loop_agree:
  assumes caps: "same_capabilities g v" and sim: "sim s t"
  shows "agree (certIsRevokedOCSP_loop w g (strict v) servers req leaf issuer err s)
               (CertificateRevokedOCSP_loop w v servers req leaf issuer err' t) \<and>
         crls (snd (certIsRevokedOCSP_loop w g (strict v) servers req leaf issuer err s)) = crls s"
  using sim
proof (induction servers arbitrary: s t err')
  case Nil
  then show ?case by (simp add: agree_def)
next
  case (Cons server servers)
  obtain r s1 where fs: "sendOCSPRequest w g server req leaf issuer s = (r, s1)"
    by (cases "sendOCSPRequest w g server req leaf issuer s")
  obtain r' t1 where ft: "fetchOCSP w v server req leaf issuer t = (r', t1)"
    by (cases "fetchOCSP w v server req leaf issuer t")
  from sendOCSPRequest_fetchOCSP [OF caps Cons.prems, of w server req leaf issuer] fs ft
  have r: "r' = r" and sim1: "sim s1 t1" by simp_all
  have c1: "crls s1 = crls s"
    using snd_sendOCSPRequest [of w g server req leaf issuer s] fs by (simp add: crls_emit)
  show ?case
  proof (cases r)
    case (Inl e)
    from Cons.IH [OF sim1, of "Some e"] Inl fs ft r sim1 c1 show ?thesis
      by (cases "strict v") (simp_all add: agree_def)
  next
    case (Inr resp)
    with fs ft r sim1 c1 show ?thesis by (simp add: agree_def)
  qed
qed

lemma OCSP_agree:
  assumes caps: "same_capabilities g v" and sim: "sim s t"
  shows "agree (certIsRevokedOCSP w g cert (strict v) s) (CertificateRevokedOCSP w v cert t)"
proof (cases "OCSPServer cert = []")
  case True
  with sim show ?thesis
    by (simp add: certIsRevokedOCSP_def CertificateRevokedOCSP_def agree_def)
next
  case False
  obtain i s1 where gi: "getIssuer w g cert s = (i, s1)" by (cases "getIssuer w g cert s")
  obtain j t1 where gj: "GetIssuer w v cert t = (j, t1)" by (cases "GetIssuer w v cert t")
  from getIssuer_GetIssuer [OF caps sim, of w cert] gi gj
  have ij: "j = i" and sim1: "sim s1 t1" by simp_all
  show ?thesis
  proof (cases i)
    case None
    with False gi gj ij sim1 show ?thesis
      by (simp add: certIsRevokedOCSP_def CertificateRevokedOCSP_def agree_def)
  next
    case (Some issuer)
    show ?thesis
    proof (cases "ocsp_CreateRequest w cert issuer")
      case (Inl e)
      with Some False gi gj ij sim1 show ?thesis
        by (simp add: certIsRevokedOCSP_def CertificateRevokedOCSP_def agree_def)
    next
      case (Inr req)
      from OCSP_loop_agree [OF caps sim1, of w "OCSPServer cert" req cert issuer None None]
        Inr Some False gi gj ij
      show ?thesis
        by (simp add: certIsRevokedOCSP_def CertificateRevokedOCSP_def)
    qed
  qed
qed

lemma orchestrator_loop_agree:
  assumes caps: "same_capabilities g v" and sim: "sim s t" and la: "lists_agree w (crls s)"
  shows "agree (revCheck_loop w g cert dps s) (CertificateRevoked_loop w v cert dps t)"
  using sim la
proof (induction dps arbitrary: s t)
  case Nil
  obtain r ok e s' where a: "certIsRevokedOCSP w g cert (strict v) s = ((r, ok, e), s')"
    by (metis prod.exhaust)
  obtain r' ok' e' t' where b: "CertificateRevokedOCSP w v cert t = ((r', ok', e'), t')"
    by (metis prod.exhaust)
  from OCSP_agree [OF caps Nil.prems(1), of w cert] a b
  have "r' = r" "ok' = ok" "sim s' t'" by (simp_all add: agree_def)
  with a b caps show ?case
    by (simp add: agree_def same_capabilities_def)
next
  case (Cons url dps)
  show ?case
  proof (cases "ldapURL w url")
    case True
    with Cons show ?thesis by simp
  next
    case False
    obtain r ok e s' where a: "certIsRevokedCRL w g cert url s = ((r, ok, e), s')"
      by (metis prod.exhaust)
    obtain r' ok' e' t' where b: "CertificateRevokedCRL w v cert url t = ((r', ok', e'), t')"
      by (metis prod.exhaust)
    from CRL_check_agree [OF caps Cons.prems, of cert url] a b
    have eq: "r' = r" "ok' = ok" and sim': "sim s' t'" and la': "lists_agree w (crls s')"
      by (simp_all add: agree_def)
    from Cons.IH [OF sim' la'] a b eq sim' False caps show ?thesis
      by (simp add: agree_def same_capabilities_def)
  qed
qed

text \<open>
  What the two entry points do share: with the same capabilities, and when every
  revocation list the parser returns or the cache holds has the same serial numbers in
  \<open>RevokedCertificates\<close> and \<open>RevokedCertificateEntries\<close>, they return the same
  revoked and checked flags, send the same requests and leave the same cache.
\<close>

lemma package_and_verifier_agree_on_flags:
  assumes "same_capabilities g v" and "lists_agree w (crls s)"
  shows "agree (VerifyCertificateError w g cert s) (CertificateValid w v cert s)"
proof -
  have sim: "sim (after_temporal_check s) (after_temporal_check s)"
    by (simp add: sim_def)
  have la: "lists_agree w (crls (after_temporal_check s))"
    using assms(2) by (simp add: after_temporal_check_def)
  show ?thesis
  proof (cases "clock w (ticks s) < NotAfter cert \<and> NotBefore cert < clock w (Suc (ticks s))")
    case True
    with orchestrator_loop_agree [OF assms(1) sim la, of cert "CRLDistributionPoints cert"]
    show ?thesis
      by (simp add: VerifyCertificateError_in_window CertificateValid_in_window)
  next
    case False
    then show ?thesis
      by (auto simp: VerifyCertificateError_def CertificateValid_def time_Now_def agree_def sim_def)
  qed
qed

text \<open>
  Claim C6 at a concrete input. With the same capabilities and the lenient policy, for a
  certificate inside its validity window with no distribution point, a resolvable issuer
  and one OCSP responder that cannot be reached, \<open>VerifyCertificateError\<close> returns
  \<open>(false, false, nil)\<close> while \<open>CertificateValid\<close> returns \<open>(false, false, err)\<close>
  with the responder's error.
\<close>

theorem package_and_verifier_differ_on_error:
  "same_capabilities (ex_globals False) (ex_verifier False) \<and>
   fst (VerifyCertificateError ex_env (ex_globals False) ex_cert_ocsp_down ex_state) =
     (False, False, None) \<and>
   fst (CertificateValid ex_env (ex_verifier False) ex_cert_ocsp_down ex_state) =
     (False, False, Some (ErrorNew ''connection refused''))"
  by (simp add: same_capabilities_def VerifyCertificateError_def CertificateValid_def
                revCheck_def CertificateRevoked_def
                Verifier_defs package_defs helper_defs ex_defs)

section \<open>OCSP without an issuer (C7)\<close>

text \<open>
  Claim C7. For a certificate with at least one OCSP responder URL whose issuer
  resolution returns absent, the OCSP check returns \<open>(false, false, nil)\<close>, and the
  only requests it has sent are the GETs of issuer resolution, one to each issuer URL:
  no responder is contacted.
\<close>

theorem ocsp_absent_issuer:
  "(OCSPServer cert \<noteq> [] \<and> fst (GetIssuer w v cert s) = None \<longrightarrow>
      CertificateRevokedOCSP w v cert s =
        ((False, False, None), s\<lparr>trace := trace s @ map HttpGet (IssuingCertificateURL cert)\<rparr>)) \<and>
   (OCSPServer cert \<noteq> [] \<and> fst (getIssuer w g cert s) = None \<longrightarrow>
      certIsRevokedOCSP w g cert strict' s =
        ((False, False, None), s\<lparr>trace := trace s @ map HttpGet (IssuingCertificateURL cert)\<rparr>))"
  by (simp add: CertificateRevokedOCSP_no_issuer certIsRevokedOCSP_no_issuer)

theorem ocsp_absent_issuer_witness:
  "CertificateRevokedOCSP ex_env (ex_verifier True) ex_cert_no_issuer (ex_state :: RevocationList state)
     = ((False, False, None), ex_state) \<and>
   certIsRevokedOCSP ex_env (ex_globals True) ex_cert_no_issuer True (ex_state :: RevocationList state)
     = ((False, False, None), ex_state)"
  using ocsp_absent_issuer [of ex_cert_no_issuer ex_env "ex_verifier True"
          "ex_state :: RevocationList state" "ex_globals True" True]
  by (simp add: ex_cert_no_issuer_def GetIssuer_def getIssuer_def ex_state_def)

section \<open>The OCSP request method (C8)\<close>

text \<open>
  Claim C8. The OCSP send operation (\<open>Verifier.fetchOCSP\<close> and \<open>sendOCSPRequest\<close>)
  sends a GET to the responder URL followed by \<open>/\<close> and the base64-encoded,
  URL-escaped request when the request is at most 256 bytes long, and a POST with the
  raw request as body when it is longer; in each case it sends exactly that one request.
\<close>

theorem ocsp_send_method:
  "(length req \<le> 256 \<longrightarrow>
      trace (snd (fetchOCSP w v server req leaf issuer s)) =
        trace s @ [HttpGet (server @ ''/'' @ url_QueryEscape w (base64_EncodeToString w req))] \<and>
      trace (snd (sendOCSPRequest w g server req leaf issuer s)) =
        trace s @ [HttpGet (server @ ''/'' @ url_QueryEscape w (base64_EncodeToString w req))]) \<and>
   (256 < length req \<longrightarrow>
      trace (snd (fetchOCSP w v server req leaf issuer s)) =
        trace s @ [HttpPost server ''application/ocsp-request'' req] \<and>
      trace (snd (sendOCSPRequest w g server req leaf issuer s)) =
        trace s @ [HttpPost server ''application/ocsp-request'' req])"
  by (simp add: snd_fetchOCSP snd_sendOCSPRequest trace_emit)

theorem ocsp_send_method_witness:
  "trace (snd (fetchOCSP ex_env (ex_verifier False) ''http://ocsp'' ''ocsp-request''
                 ex_cert_listed ex_issuer (ex_state :: RevocationList state))) =
     [HttpGet ''http://ocsp/ocsp-request''] \<and>
   trace (snd (sendOCSPRequest ex_env (ex_globals False) ''http://ocsp''
                 (replicate 257 (CHR 0x00)) ex_cert_listed ex_issuer
                 (ex_state :: RevocationList state))) =
     [HttpPost ''http://ocsp'' ''application/ocsp-request'' (replicate 257 (CHR 0x00))]"
  using ocsp_send_method [of "''ocsp-request''" ex_env "ex_verifier False" "''http://ocsp''"
          ex_cert_listed ex_issuer "ex_state :: RevocationList state" "ex_globals False"]
        ocsp_send_method [of "replicate 257 (CHR 0x00)" ex_env "ex_verifier False" "''http://ocsp''"
          ex_cert_listed ex_issuer "ex_state :: RevocationList state" "ex_globals False"]
  by (simp add: ex_env_def ex_state_def)

section \<open>Unchecked without an error (C9)\<close>

text \<open>
  Claim C9. Under the strict policy, a certificate inside its validity window with no
  usable distribution point (all are LDAP URLs, or there is none), at least one OCSP
  responder URL and an issuer that cannot be resolved gets the verdict
  \<open>(true, false, nil)\<close>: checked = false without an error value. The witness exhibits
  such an input.
\<close>

theorem strict_unchecked_without_error:
  "(strict v \<and> clock w (ticks s) < NotAfter cert \<and> NotBefore cert < clock w (Suc (ticks s)) \<and>
    (\<forall>u\<in>set (CRLDistributionPoints cert). ldapURL w u) \<and> OCSPServer cert \<noteq> [] \<and>
    fst (GetIssuer w v cert s) = None
    \<longrightarrow> fst (CertificateValid w v cert s) = (True, False, None)) \<and>
   (HardFail g \<and> clock w (ticks s) < NotAfter cert \<and> NotBefore cert < clock w (Suc (ticks s)) \<and>
    (\<forall>u\<in>set (CRLDistributionPoints cert). ldapURL w u) \<and> OCSPServer cert \<noteq> [] \<and>
    fst (getIssuer w g cert s) = None
    \<longrightarrow> fst (VerifyCertificateError w g cert s) = (True, False, None))"
proof (intro conjI impI)
  assume a: "strict v \<and> clock w (ticks s) < NotAfter cert \<and>
    NotBefore cert < clock w (Suc (ticks s)) \<and>
    (\<forall>u\<in>set (CRLDistributionPoints cert). ldapURL w u) \<and> OCSPServer cert \<noteq> [] \<and>
    fst (GetIssuer w v cert s) = None"
  let ?s = "after_temporal_check s"
  from a have "CertificateRevoked_passes w v cert (CRLDistributionPoints cert) ?s = Some ?s"
    by (simp add: CertificateRevoked_passes_ldap)
  from CertificateRevoked_loop_passes [OF this, of "[]"] a
  have v: "CertificateValid w v cert s = CertificateRevoked_loop w v cert [] ?s"
    by (simp add: CertificateValid_in_window)
  from a have "fst (GetIssuer w v cert ?s) = None"
    by (simp add: fst_GetIssuer_after_temporal_check)
  with a have "fst (CertificateRevokedOCSP w v cert ?s) = (False, False, None)"
    by (simp add: CertificateRevokedOCSP_no_issuer)
  with a v show "fst (CertificateValid w v cert s) = (True, False, None)"
    by (simp split: prod.splits)
next
  assume a: "HardFail g \<and> clock w (ticks s) < NotAfter cert \<and>
    NotBefore cert < clock w (Suc (ticks s)) \<and>
    (\<forall>u\<in>set (CRLDistributionPoints cert). ldapURL w u) \<and> OCSPServer cert \<noteq> [] \<and>
    fst (getIssuer w g cert s) = None"
  let ?s = "after_temporal_check s"
  from a have "revCheck_passes w g cert (CRLDistributionPoints cert) ?s = Some ?s"
    by (simp add: revCheck_passes_ldap)
  from revCheck_loop_passes [OF this, of "[]"] a
  have v: "VerifyCertificateError w g cert s = revCheck_loop w g cert [] ?s"
    by (simp add: VerifyCertificateError_in_window)
  from a have "fst (getIssuer w g cert ?s) = None"
    by (simp add: fst_getIssuer_after_temporal_check)
  with a have "fst (certIsRevokedOCSP w g cert (HardFail g) ?s) = (False, False, None)"
    by (simp add: certIsRevokedOCSP_no_issuer)
  with a v show "fst (VerifyCertificateError w g cert s) = (True, False, None)"
    by (simp split: prod.splits)
qed

theorem strict_unchecked_without_error_witness:
  "strict (ex_verifier True) \<and> HardFail (ex_globals True) \<and>
   fst (CertificateValid ex_env (ex_verifier True) ex_cert_no_issuer
          (ex_state :: RevocationList state)) = (True, False, None) \<and>
   fst (VerifyCertificateError ex_env (ex_globals True) ex_cert_no_issuer
          (ex_state :: RevocationList state)) = (True, False, None)"
  using strict_unchecked_without_error [of "ex_verifier True" ex_env
          "ex_state :: RevocationList state" ex_cert_no_issuer "ex_globals True"]
  by (simp add: ex_defs ldapURL_def GetIssuer_def getIssuer_def)

section \<open>The cache invariant (C10)\<close>

text \<open>
  Claim C10. One call of the CRL check (Verifier, package-level, and the package-level
  one of the build before go1.19) either leaves the cache as it was up to the deletion
  of a nil entry at the URL, or returns without error after storing at the URL a non-nil
  list that a parser returned and that, when the issuer was resolved, passed the
  signature check against it. Whenever the call returns an error the first case holds.
\<close>

theorem crl_cache_invariant:
  "(CertificateRevokedCRL w v cert uri s = ((r, ok, e), s') \<longrightarrow>
      (crls s' = evict_nil (crls s) uri \<or>
       (e = None \<and>
        (\<exists>l. crls s' = (crls s)(uri := Some (Some l)) \<and>
             (\<exists>body. x509_ParseRevocationList w body = Inr l) \<and>
             (\<forall>i. fst (GetIssuer w v cert s) = Some i \<longrightarrow> CheckSignatureFrom w l i = None)))) \<and>
      (e \<noteq> None \<longrightarrow> crls s' = evict_nil (crls s) uri)) \<and>
   (certIsRevokedCRL w g cert uri t = ((r1, ok1, e1), t') \<longrightarrow>
      (crls t' = evict_nil (crls t) uri \<or>
       (e1 = None \<and>
        (\<exists>l. crls t' = (crls t)(uri := Some (Some l)) \<and>
             (\<exists>body. x509_ParseRevocationList w body = Inr l) \<and>
             (\<forall>i. fst (getIssuer w g cert t) = Some i \<longrightarrow> CheckSignatureFrom w l i = None)))) \<and>
      (e1 \<noteq> None \<longrightarrow> crls t' = evict_nil (crls t) uri)) \<and>
   (certIsRevokedCRL_legacy w g cert uri u = ((r2, ok2, e2), u') \<longrightarrow>
      (crls u' = evict_nil (crls u) uri \<or>
       (e2 = None \<and>
        (\<exists>l. crls u' = (crls u)(uri := Some (Some l)) \<and>
             (\<exists>body. x509_ParseCRL w body = Inr l) \<and>
             (\<forall>i. fst (getIssuer w g cert u) = Some i \<longrightarrow> CheckCRLSignature w i l = None)))) \<and>
      (e2 \<noteq> None \<longrightarrow> crls u' = evict_nil (crls u) uri))"
proof (intro conjI impI)
  assume a: "CertificateRevokedCRL w v cert uri s = ((r, ok, e), s')"
  from CertificateRevokedCRL_cache_cases [OF a]
  show "crls s' = evict_nil (crls s) uri \<or>
       (e = None \<and>
        (\<exists>l. crls s' = (crls s)(uri := Some (Some l)) \<and>
             (\<exists>body. x509_ParseRevocationList w body = Inr l) \<and>
             (\<forall>i. fst (GetIssuer w v cert s) = Some i \<longrightarrow> CheckSignatureFrom w l i = None)))"
    by blast
  assume "e \<noteq> None"
  with a show "crls s' = evict_nil (crls s) uri"
    using CertificateRevokedCRL_error_cache by blast
next
  assume a: "certIsRevokedCRL w g cert uri t = ((r1, ok1, e1), t')"
  from certIsRevokedCRL_cache_cases [OF a]
  show "crls t' = evict_nil (crls t) uri \<or>
       (e1 = None \<and>
        (\<exists>l. crls t' = (crls t)(uri := Some (Some l)) \<and>
             (\<exists>body. x509_ParseRevocationList w body = Inr l) \<and>
             (\<forall>i. fst (getIssuer w g cert t) = Some i \<longrightarrow> CheckSignatureFrom w l i = None)))"
    by blast
  assume "e1 \<noteq> None"
  with a show "crls t' = evict_nil (crls t) uri"
    using certIsRevokedCRL_error_cache by blast
next
  assume a: "certIsRevokedCRL_legacy w g cert uri u = ((r2, ok2, e2), u')"
  from certIsRevokedCRL_legacy_cache_cases [OF a]
  show "crls u' = evict_nil (crls u) uri \<or>
       (e2 = None \<and>
        (\<exists>l. crls u' = (crls u)(uri := Some (Some l)) \<and>
             (\<exists>body. x509_ParseCRL w body = Inr l) \<and>
             (\<forall>i. fst (getIssuer w g cert u) = Some i \<longrightarrow> CheckCRLSignature w i l = None)))"
    by blast
  assume "e2 \<noteq> None"
  with a show "crls u' = evict_nil (crls u) uri"
    using certIsRevokedCRL_legacy_error_cache by blast
qed

theorem crl_cache_invariant_witness:
  "crls (snd (CertificateRevokedCRL ex_env (ex_verifier False) ex_cert_crl_down
                ''http://down/crl'' ex_state)) = evict_nil (crls ex_state) ''http://down/crl'' \<and>
   crls (snd (certIsRevokedCRL ex_env (ex_globals False) ex_cert_crl_down
                ''http://down/crl'' ex_state)) = evict_nil (crls ex_state) ''http://down/crl'' \<and>
   crls (snd (certIsRevokedCRL_legacy ex_env (ex_globals False) ex_cert_crl_down
                ''http://down/crl'' ex_state)) = evict_nil (crls ex_state) ''http://down/crl'' \<and>
   (\<exists>l. crls (snd (CertificateRevokedCRL ex_env (ex_verifier False) ex_cert_listed
                     ''http://ca/crl'' ex_state)) =
          (crls ex_state)(''http://ca/crl'' := Some (Some l)) \<and>
        (\<exists>body. x509_ParseRevocationList ex_env body = Inr l) \<and>
        (\<forall>i. fst (GetIssuer ex_env (ex_verifier False) ex_cert_listed
                     (ex_state :: RevocationList state)) = Some i
             \<longrightarrow> CheckSignatureFrom ex_env l i = None))"
proof -
  let ?c = "CertificateRevokedCRL ex_env (ex_verifier False) ex_cert_crl_down ''http://down/crl''
              (ex_state :: RevocationList state)"
  let ?d = "certIsRevokedCRL ex_env (ex_globals False) ex_cert_crl_down ''http://down/crl''
              (ex_state :: RevocationList state)"
  let ?l = "certIsRevokedCRL_legacy ex_env (ex_globals False) ex_cert_crl_down ''http://down/crl''
              (ex_state :: CertificateList state)"
  let ?k = "CertificateRevokedCRL ex_env (ex_verifier False) ex_cert_listed ''http://ca/crl''
              (ex_state :: RevocationList state)"
  have c: "fst ?c = (False, False, Some (ErrorNew ''connection refused''))"
    by (simp add: Verifier_defs helper_defs ex_defs)
  have d: "fst ?d = (False, False, Some (ErrorNew ''connection refused''))"
    by (simp add: package_defs helper_defs ex_defs)
  have l: "fst ?l = (False, False, Some (ErrorNew ''connection refused''))"
    by (simp add: legacy_defs helper_defs ex_defs)
  have k: "fst ?k = (True, True, None)"
    by (simp add: Verifier_defs helper_defs ex_defs)
  have stored: "crls (snd ?k) ''http://ca/crl'' \<noteq>
                  evict_nil (crls (ex_state :: RevocationList state)) ''http://ca/crl'' ''http://ca/crl''"
    by (simp add: Verifier_defs helper_defs ex_defs evict_nil_def)
  from c have c': "?c = ((False, False, Some (ErrorNew ''connection refused'')), snd ?c)"
    by (metis prod.collapse)
  from d have d': "?d = ((False, False, Some (ErrorNew ''connection refused'')), snd ?d)"
    by (metis prod.collapse)
  from l have l': "?l = ((False, False, Some (ErrorNew ''connection refused'')), snd ?l)"
    by (metis prod.collapse)
  from k have k': "?k = ((True, True, None), snd ?k)"
    by (metis prod.collapse)
  from crl_cache_invariant [where w = ex_env and v = "ex_verifier False"
      and cert = ex_cert_crl_down and uri = "''http://down/crl''" and s = ex_state
      and r = False and ok = False and e = "Some (ErrorNew ''connection refused'')"
      and s' = "snd ?c" and g = "ex_globals False" and t = ex_state and ?r1.0 = False
      and ?ok1.0 = False and ?e1.0 = "Some (ErrorNew ''connection refused'')" and t' = "snd ?d"
      and u = ex_state and ?r2.0 = False and ?ok2.0 = False
      and ?e2.0 = "Some (ErrorNew ''connection refused'')" and u' = "snd ?l"]
    c' d' l'
  have errors: "crls (snd ?c) = evict_nil (crls ex_state) ''http://down/crl'' \<and>
                crls (snd ?d) = evict_nil (crls ex_state) ''http://down/crl'' \<and>
                crls (snd ?l) = evict_nil (crls ex_state) ''http://down/crl''"
    by simp
  from stored have stored': "crls (snd ?k) \<noteq> evict_nil (crls ex_state) ''http://ca/crl''"
    by metis
  have "?k = ((True, True, None), snd ?k) \<longrightarrow>
      (crls (snd ?k) = evict_nil (crls ex_state) ''http://ca/crl'' \<or>
       (None = (None :: error option) \<and>
        (\<exists>l. crls (snd ?k) = (crls ex_state)(''http://ca/crl'' := Some (Some l)) \<and>
             (\<exists>body. x509_ParseRevocationList ex_env body = Inr l) \<and>
             (\<forall>i. fst (GetIssuer ex_env (ex_verifier False) ex_cert_listed
                          (ex_state :: RevocationList state)) = Some i
                  \<longrightarrow> CheckSignatureFrom ex_env l i = None)))) \<and>
      ((None :: error option) \<noteq> None \<longrightarrow>
         crls (snd ?k) = evict_nil (crls ex_state) ''http://ca/crl'')"
    by (rule crl_cache_invariant [where w = ex_env and v = "ex_verifier False"
      and cert = ex_cert_listed and uri = "''http://ca/crl''" and s = ex_state
      and r = True and ok = True and e = None and s' = "snd ?k", THEN conjunct1])
  with k' stored'
  have "\<exists>l. crls (snd ?k) = (crls ex_state)(''http://ca/crl'' := Some (Some l)) \<and>
        (\<exists>body. x509_ParseRevocationList ex_env body = Inr l) \<and>
        (\<forall>i. fst (GetIssuer ex_env (ex_verifier False) ex_cert_listed
                     (ex_state :: RevocationList state)) = Some i
             \<longrightarrow> CheckSignatureFrom ex_env l i = None)"
    by blast
  with errors show ?thesis by blast
qed

end
